theory Spec2Isabelle
  imports Main "HOL-Library.Sublist"
begin

section \<open>JavaScript strings\<close>

text \<open>
  A JavaScript string is modelled as a \<^typ>\<open>string\<close>: the list of its code units, each
  below 256.  The operations below are the ones \<^verbatim>\<open>src/cml.js\<close> and the utilities file
  call on strings, written out the way ECMAScript defines them.
\<close>

text \<open>\<^verbatim>\<open>s.includes(t)\<close>: \<open>t\<close> occurs in \<open>s\<close> as a contiguous run of code units.\<close>

fun str_includes :: "string \<Rightarrow> string \<Rightarrow> bool" where
  "str_includes [] t = (t = [])"
| "str_includes (c # s) t = (prefix t (c # s) \<or> str_includes s t)"

text \<open>\<^verbatim>\<open>s.endsWith(t)\<close> and \<^verbatim>\<open>s.startsWith(t)\<close>.\<close>

definition endsWith :: "string \<Rightarrow> string \<Rightarrow> bool" where
  "endsWith s t = suffix t s"

definition startsWith :: "string \<Rightarrow> string \<Rightarrow> bool" where
  "startsWith s t = prefix t s"

text \<open>
  White space and line terminators of ECMAScript among the code units below 256:
  TAB, LF, VT, FF, CR, SP and NBSP.  \<^verbatim>\<open>s.trim()\<close> removes them from both ends.
\<close>

definition isWhiteSpace :: "char \<Rightarrow> bool" where
  "isWhiteSpace c = (c \<in> set [CHR 0x09, CHR 0x0A, CHR 0x0B, CHR 0x0C, CHR 0x0D, CHR 0x20, CHR 0xA0])"

definition trimStart :: "string \<Rightarrow> string" where
  "trimStart s = dropWhile isWhiteSpace s"

definition trimEnd :: "string \<Rightarrow> string" where
  "trimEnd s = rev (dropWhile isWhiteSpace (rev s))"

definition trim :: "string \<Rightarrow> string" where
  "trim s = trimEnd (trimStart s)"

text \<open>
  \<^verbatim>\<open>GetSubstitution\<close> for a replacement string when the pattern is a string (no capture
  groups): \<^verbatim>\<open>$$\<close> is a dollar sign, \<^verbatim>\<open>$&\<close> the matched text, \<^verbatim>\<open>$`\<close> the text before
  the match, \<^verbatim>\<open>$'\<close> the text after it; any other use of a dollar sign stays as it is.
\<close>

fun getSubstitution :: "string \<Rightarrow> string \<Rightarrow> string \<Rightarrow> string \<Rightarrow> string" where
  "getSubstitution m b a [] = []"
| "getSubstitution m b a [c] = [c]"
| "getSubstitution m b a (c # d # r) =
     (if c = CHR ''$'' then
        (if d = CHR ''$'' then CHR ''$'' # getSubstitution m b a r
         else if d = CHR ''&'' then m @ getSubstitution m b a r
         else if d = CHR 0x60 then b @ getSubstitution m b a r
         else if d = CHR 0x27 then a @ getSubstitution m b a r
         else c # getSubstitution m b a (d # r))
      else c # getSubstitution m b a (d # r))"

text \<open>The first occurrence of \<open>pat\<close> in \<open>s\<close>: the text before it and the text after it.\<close>

fun splitAtFirst :: "string \<Rightarrow> string \<Rightarrow> (string \<times> string) option" where
  "splitAtFirst pat [] = (if pat = [] then Some ([], []) else None)"
| "splitAtFirst pat (c # s) =
     (if prefix pat (c # s) then Some ([], drop (length pat) (c # s))
      else map_option (\<lambda>(b, a). (c # b, a)) (splitAtFirst pat s))"

text \<open>
  \<^verbatim>\<open>s.replace(pat, rep)\<close> with a string pattern: only the first occurrence is replaced,
  and the replacement goes through \<^const>\<open>getSubstitution\<close>.
\<close>

definition replaceFirst :: "string \<Rightarrow> string \<Rightarrow> string \<Rightarrow> string" where
  "replaceFirst pat rep s =
     (case splitAtFirst pat s of
        None \<Rightarrow> s
      | Some (b, a) \<Rightarrow> b @ getSubstitution pat b a rep @ a)"

text \<open>
  \<^verbatim>\<open>s.replace(/c/g, rep)\<close> for a pattern that is one literal character: every occurrence
  is replaced.  The four replacements of the source contain no dollar sign, so the
  replacement text is inserted as it is.
\<close>

definition replaceAllChar :: "char \<Rightarrow> string \<Rightarrow> string \<Rightarrow> string" where
  "replaceAllChar c rep s = concat (map (\<lambda>x. if x = c then rep else [x]) s)"

text \<open>
  \<^verbatim>\<open>String(v)\<close> for a value that is a string or \<^verbatim>\<open>undefined\<close>, as the replacement
  argument of \<^verbatim>\<open>replace\<close> is converted.
\<close>

definition toStr :: "string option \<Rightarrow> string" where
  "toStr v = (case v of None \<Rightarrow> ''undefined'' | Some s \<Rightarrow> s)"

section \<open>The watermark\<close>

definition WATERMARK_IMAGE :: string where
  "WATERMARK_IMAGE = ''https://cml.dev/watermark.png''"

text \<open>The options of \<^verbatim>\<open>genWatermark\<close>; an absent label defaults to the empty string.\<close>

record watermark_opts =
  label :: "string option"
  workflow :: "string option"
  run :: "string option"

text \<open>The list \<^verbatim>\<open>patterns\<close> of \<^verbatim>\<open>genWatermark\<close>, in the source's order.\<close>

definition patterns :: "(char \<times> string) list" where
  "patterns =
     [(CHR ''_'', [CHR 0x5C, CHR ''_'']),
      (CHR ''*'', [CHR 0x5C, CHR ''*'']),
      (CHR ''['', [CHR 0x5C, CHR ''['']),
      (CHR ''<'', [CHR 0x5C, CHR ''<''])]"

definition escapeTitle :: "string \<Rightarrow> string" where
  "escapeTitle title = foldl (\<lambda>lbl pattern. replaceAllChar (fst pattern) (snd pattern) lbl) title patterns"

definition genWatermark :: "watermark_opts \<Rightarrow> string" where
  "genWatermark opts =
     (let lbl = replaceFirst ''{run}'' (toStr (run opts))
                  (replaceFirst ''{workflow}'' (toStr (workflow opts))
                     (case label opts of None \<Rightarrow> [] | Some l \<Rightarrow> l));
          title = escapeTitle (trim (''CML watermark '' @ lbl))
      in ''![]('' @ WATERMARK_IMAGE @ [CHR 0x20, CHR 0x22] @ title @ [CHR 0x22, CHR '')''])"

text \<open>
  The test of \<^verbatim>\<open>updatableComment\<close>: a comment body matches a token when it contains it.
\<close>

definition matches :: "string \<Rightarrow> string \<Rightarrow> bool" where
  "matches body token = str_includes body token"

text \<open>
  \<^verbatim>\<open>s.split(c)\<close> for a separator of one character: the pieces between the separators;
  the empty string gives one empty piece.
\<close>

fun splitOn :: "char \<Rightarrow> string \<Rightarrow> string list" where
  "splitOn c [] = [[]]"
| "splitOn c (x # xs) =
     (if x = c then [] # splitOn c xs
      else (case splitOn c xs of [] \<Rightarrow> [[x]] | p # ps \<Rightarrow> (x # p) # ps))"

text \<open>Array indexing: an index past the end reads \<^verbatim>\<open>undefined\<close>.\<close>

definition at :: "'a list \<Rightarrow> nat \<Rightarrow> 'a option" where
  "at xs i = (if i < length xs then Some (xs ! i) else None)"

text \<open>Truthiness of a value that is a string or \<^verbatim>\<open>undefined\<close>: the empty string is falsy.\<close>

definition truthy :: "string option \<Rightarrow> bool" where
  "truthy v = (case v of None \<Rightarrow> False | Some s \<Rightarrow> s \<noteq> [])"

text \<open>A number in a template literal: its decimal digits.\<close>

fun showNat :: "nat \<Rightarrow> string" where
  "showNat n =
     (if n < 10 then [char_of (48 + n)] else showNat (n div 10) @ [char_of (48 + n mod 10)])"

section \<open>Errors, effects and asynchronous results\<close>

text \<open>
  A thrown value: an \<^verbatim>\<open>Error\<close> object with its constructor's name, its message and the
  optional \<^verbatim>\<open>code\<close> property that Node sets on system errors.
\<close>

datatype js_error = JsError (ename: string) (emessage: string) (ecode: "string option")

definition newError :: "string \<Rightarrow> js_error" where
  "newError msg = JsError ''Error'' msg None"

definition newTypeError :: "string \<Rightarrow> js_error" where
  "newTypeError msg = JsError ''TypeError'' msg None"

text \<open>The resolved comment target; \<open>tkind\<close> is its \<^verbatim>\<open>target\<close> property.\<close>

record comment_target =
  tkind :: string
  tref :: string

text \<open>The argument of the driver's \<^verbatim>\<open>prCreate\<close>.\<close>

record pr_request =
  rq_source :: string
  rq_target :: string
  rq_title :: string
  rq_description :: string
  rq_skipCi :: bool
  rq_autoMerge :: "string option"

text \<open>
  Calls that leave the process, in the order they are made: the file system, the
  asset store, the file watcher, git, the logger and the methods of the platform driver.
\<close>

datatype effect =
    FsReadFile "string option"
  | FsExists string
  | FsStat string
  | FsWriteFile string
  | FsUnlink "string option"
  | MagicGetInstance
  | MagicDetect "string option"
  | HttpPost string "(string \<times> string) list"
  | WatcherAdd "string option"
  | WatcherOn string
  | WaitForever
  | ParseCommentTarget
  | Exec "string list"
  | GitStatus
  | Globby "string list"
  | Winston string string
  | DrvUpload "string option"
  | DrvComments string comment_target
  | DrvCommentUpdate string string string comment_target
  | DrvCommentCreate string string comment_target
  | DrvWarn string
  | DrvPrs
  | DrvPrCreate pr_request
  | DrvUpdateGitConfig
  | DrvRunnerLogPatterns
  | DrvRunners
  | DrvRunnerJob "string option"

text \<open>
  How an asynchronous function ends: its promise is rejected, it is resolved, or it
  is never settled (the function awaits \<^verbatim>\<open>waitForever()\<close>).
\<close>

datatype 'a outcome = Rejected js_error | Resolved 'a | Forever

type_synonym 'a io = "effect list \<times> 'a outcome"

definition io_return :: "'a \<Rightarrow> 'a io" where
  "io_return x = ([], Resolved x)"

definition io_throw :: "js_error \<Rightarrow> 'a io" where
  "io_throw e = ([], Rejected e)"

text \<open>Sequencing: what follows an \<^verbatim>\<open>await\<close> runs only when the awaited call resolved.\<close>

definition io_bind :: "'a io \<Rightarrow> ('a \<Rightarrow> 'b io) \<Rightarrow> 'b io" where
  "io_bind m f =
     (case m of
        (t, Rejected e) \<Rightarrow> (t, Rejected e)
      | (t, Forever) \<Rightarrow> (t, Forever)
      | (t, Resolved x) \<Rightarrow> (case f x of (t', r) \<Rightarrow> (t @ t', r)))"

text \<open>\<^verbatim>\<open>try { m } catch (err) { h err }\<close>.\<close>

definition io_catch :: "'a io \<Rightarrow> (js_error \<Rightarrow> 'a io) \<Rightarrow> 'a io" where
  "io_catch m h =
     (case m of
        (t, Rejected e) \<Rightarrow> (case h e of (t', r) \<Rightarrow> (t @ t', r))
      | (t, r) \<Rightarrow> (t, r))"

text \<open>An answer of the outside world as the outcome of the call.\<close>

definition settled :: "js_error + 'a \<Rightarrow> 'a outcome" where
  "settled answer = (case answer of Inl e \<Rightarrow> Rejected e | Inr x \<Rightarrow> Resolved x)"

text \<open>An external call: the effect, and the answer the outside world gives.\<close>

definition io_call :: "effect \<Rightarrow> js_error + 'a \<Rightarrow> 'a io" where
  "io_call eff answer = ([eff], settled answer)"

text \<open>A synchronous call that may throw but touches nothing outside.\<close>

definition io_pure :: "js_error + 'a \<Rightarrow> 'a io" where
  "io_pure answer = ([], settled answer)"

section \<open>The outside world\<close>

text \<open>What \<^verbatim>\<open>upload\<close> and the driver's \<^verbatim>\<open>upload\<close> resolve to.\<close>

record upload_result =
  u_uri :: string
  u_mime :: string
  u_size :: nat

text \<open>
  A node of the markdown tree as far as the publisher reads it: its type, its \<^verbatim>\<open>url\<close>,
  its \<^verbatim>\<open>title\<close> and its children (none for a leaf).  The tree is its root node.
\<close>

datatype md_node =
  MdNode (ntype: string) (nurl: "string option") (ntitle: "string option") (children: "md_node list")

record comment =
  comment_id :: string
  body :: string

text \<open>An entry of the driver's \<^verbatim>\<open>prs()\<close>.\<close>

record pull_request =
  pr_url :: "string option"
  pr_source :: string
  pr_target :: string

record runner =
  runner_id :: "string option"
  runner_name :: string

record job_info =
  job_id :: "string option"

text \<open>
  A regular expression without the global or sticky flag, given by what \<^verbatim>\<open>exec\<close>
  returns on a text: nothing, or the array of the match and its capture groups.
\<close>

type_synonym regex = "string \<Rightarrow> string option list option"

definition test :: "regex \<Rightarrow> string \<Rightarrow> bool" where
  "test regex data = (regex data \<noteq> None)"

text \<open>
  What the driver's \<^verbatim>\<open>runnerLogPatterns()\<close> returns.  The four status patterns are
  present; \<^verbatim>\<open>job\<close> and \<^verbatim>\<open>pipeline\<close> are optional.
\<close>

record log_patterns =
  p_ready :: regex
  p_job_started :: regex
  p_job_ended :: regex
  p_job_ended_succeded :: regex
  p_job :: "regex option"
  p_pipeline :: "regex option"

text \<open>
  The answers of everything the program calls and does not define: the file system,
  \<^verbatim>\<open>path\<close>, libmagic, the asset store, the \<^verbatim>\<open>URL\<close> class, \<^verbatim>\<open>preventcacheUri\<close>, remark,
  \<^verbatim>\<open>parseCommentTarget\<close>, the platform driver, git and the clock (\<open>now\<close>: the time read
  when the event of a status is built).  A call that can throw or reject answers with
  \<open>Inl\<close> of the error.  \<open>notAFunction\<close> is the wording of the engine: the message of the
  \<^verbatim>\<open>TypeError\<close> that it throws where the named property is called and is no function.
\<close>

record env =
  readFile :: "string option \<Rightarrow> js_error + string"
  existsSync :: "string \<Rightarrow> bool"
  stat :: "string \<Rightarrow> js_error + nat"
  writeFile :: "string \<Rightarrow> js_error + unit"
  unlink :: "string option \<Rightarrow> js_error + unit"
  tempyFile :: string
  magicFile :: string
  resolveFrom :: "string option \<Rightarrow> string \<Rightarrow> js_error + string"
  basename :: "string \<Rightarrow> string"
  getInstance :: "js_error + unit"
  detect :: "string option \<Rightarrow> js_error + string option"
  httpPost :: "string \<Rightarrow> (string \<times> string) list \<Rightarrow> js_error + nat \<times> string"
  urlAppend :: "string \<Rightarrow> string \<Rightarrow> string \<Rightarrow> js_error + string"
  preventcacheUri :: "string \<Rightarrow> js_error + string"
  mdParse :: "string \<Rightarrow> md_node"
  mdStringify :: "md_node \<Rightarrow> string"
  notAFunction :: "string \<Rightarrow> string"
  parseCommentTarget :: "string option \<Rightarrow> string option \<Rightarrow> string \<Rightarrow> js_error + comment_target"
  workflowId :: "string option"
  runId :: "string option"
  drvSha :: "string option"
  drvBranch :: "string option"
  drvUpload :: "string option \<Rightarrow> js_error + upload_result"
  drvComments :: "string \<Rightarrow> comment_target \<Rightarrow> js_error + comment list"
  drvCommentUpdate :: "string \<Rightarrow> string \<Rightarrow> string \<Rightarrow> comment_target \<Rightarrow> js_error + string"
  drvCommentCreate :: "string \<Rightarrow> string \<Rightarrow> comment_target \<Rightarrow> js_error + string"
  drvPrs :: "js_error + pull_request list"
  drvPrCreate :: "pr_request \<Rightarrow> js_error + string"
  drvUpdateGitConfig :: "js_error + string list list"
  drvRunnerLogPatterns :: "js_error + log_patterns"
  drvRunners :: "js_error + runner list"
  drvRunnerJob :: "string option \<Rightarrow> js_error + job_info option"
  exec :: "string list \<Rightarrow> js_error + string"
  gitStatus :: "js_error + string list"
  globby :: "string list \<Rightarrow> js_error + string list"
  now :: "string \<Rightarrow> string"

section \<open>The utilities: MIME detection and upload\<close>

text \<open>
  The options that \<^verbatim>\<open>publish\<close>, \<^verbatim>\<open>upload\<close>, \<^verbatim>\<open>fetchUploadData\<close> and \<^verbatim>\<open>mimeType\<close> read.
  A buffer is given by its bytes; a \<^verbatim>\<open>Buffer\<close> object is truthy also when it is empty.
\<close>

record publish_opts =
  po_path :: "string option"
  po_buffer :: "string option"
  po_mimeType :: "string option"
  po_session :: "string option"
  po_title :: "string option"
  po_md :: bool
  po_native :: bool
  po_rmWatermark :: bool

text \<open>
  \<^verbatim>\<open>mimeType\<close>.  Every step that throws or rejects ends the function with that error:
  there is no \<^verbatim>\<open>try\<close> in it.  The answer of \<^verbatim>\<open>detect\<close> is a string.  For a falsy answer
  (\<open>None\<close>, or the empty string) the source puts an array in its place, and
  \<^verbatim>\<open>(... || []).split(';')\<close> then calls \<^verbatim>\<open>split\<close> on that array, which has no such method:
  the engine throws its \<^verbatim>\<open>TypeError\<close>.
\<close>

definition mimeType :: "env \<Rightarrow> publish_opts \<Rightarrow> string io" where
  "mimeType w opts =
     io_bind (io_call (FsExists (magicFile w)) (Inr (existsSync w (magicFile w)))) (\<lambda>_.
     io_bind (io_call MagicGetInstance (getInstance w)) (\<lambda>_.
     io_bind (case po_buffer opts of
                None \<Rightarrow> io_return ()
              | Some b \<Rightarrow> io_call (FsWriteFile (tempyFile w)) (writeFile w (tempyFile w))) (\<lambda>_.
     let arg = (if po_buffer opts \<noteq> None then Some (tempyFile w) else po_path opts) in
     io_bind (io_call (MagicDetect arg) (detect w arg)) (\<lambda>d.
       if truthy d
       then io_return (case splitOn CHR '';'' (toStr d) of [] \<Rightarrow> [] | mime # _ \<Rightarrow> mime)
       else io_throw (newTypeError (notAFunction w ''split''))))))"

definition fetchUploadData :: "env \<Rightarrow> publish_opts \<Rightarrow> (string \<times> nat) io" where
  "fetchUploadData w opts =
     io_bind (if truthy (po_path opts)
              then io_call (FsStat (toStr (po_path opts))) (stat w (toStr (po_path opts)))
              else (case po_buffer opts of
                      None \<Rightarrow> io_throw (newTypeError ''Cannot read properties of undefined (reading 'length')'')
                    | Some b \<Rightarrow> io_return (length b))) (\<lambda>size.
     io_bind (if truthy (po_mimeType opts) then io_return (toStr (po_mimeType opts))
              else mimeType w opts) (\<lambda>mime.
     io_return (mime, size)))"

definition upload :: "env \<Rightarrow> publish_opts \<Rightarrow> upload_result io" where
  "upload w opts =
     io_bind (fetchUploadData w opts) (\<lambda>(mime, size).
     let filename = (if truthy (po_path opts) then basename w (toStr (po_path opts))
                     else ''file.'' @ toStr (at (splitOn CHR ''/'' mime) 1));
         headers = [(''Content-Length'', showNat size),
                    (''Content-Type'', mime),
                    (''Content-Disposition'', ''inline; filename='' @ [CHR 0x22] @ filename @ [CHR 0x22])]
                   @ (if truthy (po_session opts)
                      then [(''Content-Address-Seed'', toStr (po_session opts) @ '':'' @ toStr (po_path opts))]
                      else [])
     in io_bind (io_call (HttpPost ''https://asset.cml.dev'' headers)
                   (httpPost w ''https://asset.cml.dev'' headers)) (\<lambda>(status, uri).
        if uri = []
        then io_throw (newError (''Empty response from asset backend with status code '' @ showNat status))
        else io_return \<lparr>u_uri = uri, u_mime = mime, u_size = size\<rparr>))"

text \<open>\<^verbatim>\<open>watermarkUri\<close>: the \<^verbatim>\<open>URL\<close> class parses the address and appends the parameter.\<close>

definition watermarkUri :: "env \<Rightarrow> string \<Rightarrow> string option \<Rightarrow> js_error + string" where
  "watermarkUri w uri type = urlAppend w uri ''cml'' (toStr type)"

section \<open>The class \<^verbatim>\<open>CML\<close>\<close>

record cml =
  repo :: string
  token :: "string option"
  driver :: "string option"

definition GITHUB :: string where "GITHUB = ''github''"
definition GITLAB :: string where "GITLAB = ''gitlab''"
definition BB :: string where "BB = ''bitbucket''"

text \<open>
  \<^verbatim>\<open>getDriver\<close> builds the driver object of the configured platform, or throws.  The
  behaviour of the object is in \<^typ>\<open>env\<close>; the result here is the platform's name.
\<close>

definition getDriver :: "cml \<Rightarrow> js_error + string" where
  "getDriver c =
     (if \<not> truthy (driver c) then Inl (newError ''driver not set'')
      else if driver c = Some GITHUB then Inr GITHUB
      else if driver c = Some GITLAB then Inr GITLAB
      else if driver c = Some BB then Inr BB
      else Inl (newError (''driver '' @ toStr (driver c) @ '' unknown!'')))"

subsection \<open>\<^verbatim>\<open>publish\<close>\<close>

text \<open>\<^verbatim>\<open>mime.match('(image|video)/.*')\<close>: the pattern is not anchored.\<close>

definition isImageOrVideo :: "string \<Rightarrow> bool" where
  "isImageOrVideo mime = (str_includes mime ''image/'' \<or> str_includes mime ''video/'')"

definition publish :: "cml \<Rightarrow> env \<Rightarrow> publish_opts \<Rightarrow> string io" where
  "publish c w opts =
     (let title = (case po_title opts of None \<Rightarrow> [] | Some t \<Rightarrow> t) in
      io_bind (if po_native opts
               then io_bind (io_pure (getDriver c)) (\<lambda>_.
                      io_call (DrvUpload (po_path opts)) (drvUpload w (po_path opts)))
               else upload w opts) (\<lambda>r.
      io_bind (if \<not> po_rmWatermark opts
               then io_pure (watermarkUri w (u_uri r) (at (splitOn CHR ''/'' (u_mime r)) 1))
               else io_return (u_uri r)) (\<lambda>uri.
      io_bind (io_pure (preventcacheUri w uri)) (\<lambda>uri.
      if po_md opts \<and> isImageOrVideo (u_mime r)
      then io_return (''![]('' @ uri @ (if title \<noteq> [] then [CHR 0x20, CHR 0x22] @ title @ [CHR 0x22] else []) @ '')'')
      else if po_md opts then io_return (''['' @ title @ '']('' @ uri @ '')'')
      else io_return uri))))"

subsection \<open>\<^verbatim>\<open>commentCreate\<close>\<close>

text \<open>
  The options of \<^verbatim>\<open>commentCreate\<close>.  \<open>co_rest\<close> holds the other properties of the
  object, which \<^verbatim>\<open>...opts\<close> hands on to \<^verbatim>\<open>publish\<close>.
\<close>

record comment_opts =
  co_commitSha :: "string option"
  co_markdownFile :: "string option"
  co_pr :: "string option"
  co_publish :: bool
  co_publishUrl :: "string option"
  co_report :: "string option"
  co_rmWatermark :: bool
  co_target :: "string option"
  co_triggerFile :: "string option"
  co_update :: bool
  co_watch :: bool
  co_watermarkTitle :: "string option"
  co_rest :: publish_opts

text \<open>
  \<^verbatim>\<open>Promise.all\<close>: every promise has been started; the result is rejected when one of
  them is, and resolved with all the values when all are.  The trace lists the calls
  promise by promise (at run time they interleave), and of several rejections the one
  of the earliest promise in the list is reported (at run time: the earliest in time).
\<close>

fun promiseAll :: "'a io list \<Rightarrow> 'a list io" where
  "promiseAll [] = ([], Resolved [])"
| "promiseAll (m # ms) =
     (case m of (t, r) \<Rightarrow>
        (case promiseAll ms of (t', rs) \<Rightarrow>
           (t @ t',
            (case r of
               Rejected e \<Rightarrow> Rejected e
             | Forever \<Rightarrow> (case rs of Rejected e' \<Rightarrow> Rejected e' | _ \<Rightarrow> Forever)
             | Resolved x \<Rightarrow>
                 (case rs of
                    Rejected e' \<Rightarrow> Rejected e'
                  | Forever \<Rightarrow> Forever
                  | Resolved xs \<Rightarrow> Resolved (x # xs))))))"

definition isWatermark :: "md_node \<Rightarrow> bool" where
  "isWatermark node = (truthy (ntitle node) \<and> startsWith (toStr (ntitle node)) ''CML watermark'')"

text \<open>The assignment \<^verbatim>\<open>node.url = ...\<close>.\<close>

definition setUrl :: "string option \<Rightarrow> md_node \<Rightarrow> md_node" where
  "setUrl u node = MdNode (ntype node) u (ntitle node) (children node)"

text \<open>The \<^verbatim>\<open>visitor\<close> of \<^verbatim>\<open>publishLocalFiles\<close>; it resolves to the node as it leaves it.\<close>

definition visitor :: "cml \<Rightarrow> env \<Rightarrow> comment_opts \<Rightarrow> md_node \<Rightarrow> md_node io" where
  "visitor c w opts node =
     (if truthy (nurl node) \<and> \<not> isWatermark node
      then io_bind (io_pure (resolveFrom w (co_markdownFile opts) (toStr (nurl node)))) (\<lambda>absolutePath.
           io_bind (if \<not> truthy (co_triggerFile opts) \<and> co_watch opts
                    then io_call (WatcherAdd (Some absolutePath)) (Inr ())
                    else io_return ()) (\<lambda>_.
           io_catch
             (io_bind (publish c w ((co_rest opts)\<lparr>po_path := Some absolutePath,
                                                    po_rmWatermark := co_rmWatermark opts\<rparr>))
                (\<lambda>uri. io_return (setUrl (Some uri) node)))
             (\<lambda>err. if ecode err \<noteq> Some ''ENOENT'' then io_throw err else io_return node)))
      else io_return node)"

text \<open>The test of \<^verbatim>\<open>visit\<close>: the node's type is one of the three listed.\<close>

definition visited :: "md_node \<Rightarrow> bool" where
  "visited node = (ntype node \<in> set [''definition'', ''image'', ''link''])"

text \<open>
  \<^verbatim>\<open>visit(tree, ['definition', 'image', 'link'], (node) => nodes.push(node))\<close>.  The
  function \<^verbatim>\<open>visit\<close> of unist-util-visit walks the tree in preorder and calls the callback
  on the nodes that pass the test.  When the callback returns a number, the walk of the
  parent's children goes on at the child of that index, once the node's own children
  are walked; otherwise it goes on at the next child.  Here the callback returns the
  value of \<^verbatim>\<open>push\<close>, the new length of \<^verbatim>\<open>nodes\<close>.

  \<open>visitAll p cs offset n\<close> is the loop over the children \<open>cs\<close> of the node at the
  position \<open>p\<close>, from the index \<open>offset\<close> on, when \<open>n\<close> nodes are collected already.  It
  gives the nodes that are pushed from there on, in their order, each with its position:
  the indices that lead from the root to it.  A node can be pushed more than once, or
  never.
\<close>

function visitAll :: "nat list \<Rightarrow> md_node list \<Rightarrow> nat \<Rightarrow> nat \<Rightarrow> (nat list \<times> md_node) list" where
  "visitAll p cs offset n =
     (if offset < length cs then
        (let c = cs ! offset;
             pushed = (if visited c then n + 1 else n);
             below = visitAll (p @ [offset]) (children c) 0 pushed
         in (if visited c then [(p @ [offset], c)] else []) @ below
            @ visitAll p cs (if visited c then pushed else offset + 1) (pushed + length below))
      else [])"
  by pat_completeness auto
termination
proof (relation "measures [\<lambda>(p, cs, offset, n). size_list size cs,
                           \<lambda>(p, cs, offset, n). length cs - n,
                           \<lambda>(p, cs, offset, n). length cs - offset]")
  show "wf (measures [\<lambda>(p, cs, offset, n). size_list size cs,
                      \<lambda>(p, cs, offset, n). length cs - n,
                      \<lambda>(p, cs, offset, n). length cs - offset])"
    by simp
next
  fix p :: "nat list" and cs :: "md_node list" and offset n :: nat and c pushed
  assume "offset < length cs" and c: "c = cs ! offset"
  then have "c \<in> set cs" by simp
  then have "size c \<le> size_list size cs" by (rule size_list_estimation') simp
  moreover have "size_list size (children c) < size c" by (cases c) simp
  ultimately show "((p @ [offset], children c, 0, pushed), p, cs, offset, n)
      \<in> measures [\<lambda>(p, cs, offset, n). size_list size cs,
                  \<lambda>(p, cs, offset, n). length cs - n,
                  \<lambda>(p, cs, offset, n). length cs - offset]"
    by simp
next
  fix p :: "nat list" and cs :: "md_node list" and offset n :: nat and c pushed
    and below :: "(nat list \<times> md_node) list"
  assume "offset < length cs" and "pushed = (if visited c then n + 1 else n)"
  then show "((p, cs, if visited c then pushed else offset + 1, pushed + length below), p, cs, offset, n)
      \<in> measures [\<lambda>(p, cs, offset, n). size_list size cs,
                  \<lambda>(p, cs, offset, n). length cs - n,
                  \<lambda>(p, cs, offset, n). length cs - offset]"
    by auto
qed

declare visitAll.simps [simp del]

text \<open>The walk starts at the root, which has no siblings.\<close>

definition visit :: "md_node \<Rightarrow> (nat list \<times> md_node) list" where
  "visit tree =
     (if visited tree then [([], tree)] else [])
     @ visitAll [] (children tree) 0 (if visited tree then 1 else 0)"

text \<open>
  The tree in which the node at every position \<open>p\<close> has the \<^verbatim>\<open>url\<close> that \<open>g p\<close> gives for
  it; \<open>i\<close> is the index of the first node of the list among the children of \<open>p\<close>.
\<close>

fun assigned :: "(nat list \<Rightarrow> md_node \<Rightarrow> string option) \<Rightarrow> nat list \<Rightarrow> md_node \<Rightarrow> md_node"
  and assignedAll :: "(nat list \<Rightarrow> md_node \<Rightarrow> string option) \<Rightarrow> nat list \<Rightarrow> nat \<Rightarrow> md_node list \<Rightarrow> md_node list"
  where
  "assigned g p (MdNode type url title cs) = MdNode type (g p (MdNode type url title cs)) title (assignedAll g p 0 cs)"
| "assignedAll g p i [] = []"
| "assignedAll g p i (c # cs) = assigned g (p @ [i]) c # assignedAll g p (Suc i) cs"

text \<open>The \<^verbatim>\<open>url\<close> of a node once its visitor has settled.\<close>

definition urlAfter :: "cml \<Rightarrow> env \<Rightarrow> comment_opts \<Rightarrow> md_node \<Rightarrow> string option" where
  "urlAfter c w opts node =
     (case snd (visitor c w opts node) of Resolved node' \<Rightarrow> nurl node' | _ \<Rightarrow> nurl node)"

text \<open>
  \<^verbatim>\<open>publishLocalFiles\<close>: one visitor runs for every entry of \<^verbatim>\<open>nodes\<close>, and all of them
  are awaited.  The visitors assign to the nodes of the tree, so that afterwards the
  nodes at the collected positions have the \<^verbatim>\<open>url\<close> that their visitor left and the
  others are as they were.  The function resolves to the tree in that state, which is
  what remark goes on with.
\<close>

definition publishLocalFiles :: "cml \<Rightarrow> env \<Rightarrow> comment_opts \<Rightarrow> md_node \<Rightarrow> md_node io" where
  "publishLocalFiles c w opts tree =
     (let nodes = visit tree in
      io_bind (promiseAll (map (\<lambda>(p, node). visitor c w opts node) nodes)) (\<lambda>_.
      io_return (assigned (\<lambda>p node. if p \<in> set (map fst nodes) then urlAfter c w opts node
                                     else nurl node) [] tree)))"

text \<open>
  The index of the \<^verbatim>\<open>=\<close> that ends a match of \<^verbatim>\<open>(.+)=\<close> on the rest of a line: the last
  \<^verbatim>\<open>=\<close> with at least one character before it.
\<close>

definition lastEq :: "string \<Rightarrow> nat option" where
  "lastEq line =
     (case filter (\<lambda>j. line ! j = CHR ''='') (rev [1..<length line]) of
        [] \<Rightarrow> None
      | j # _ \<Rightarrow> Some j)"

definition isLineTerminator :: "char \<Rightarrow> bool" where
  "isLineTerminator c = (c = CHR 0x0A \<or> c = CHR 0x0D)"

text \<open>
  \<^verbatim>\<open>s.replace(/\\&(.+)=/g, '&$1=')\<close>: from left to right, a backslash and an ampersand
  followed on the same line by at least one character and an equals sign match, up to
  the last such equals sign of the line (\<^verbatim>\<open>.+\<close> is greedy); the backslash is dropped
  from the match, and the search goes on after it.
\<close>

function unescapeAmp :: "string \<Rightarrow> string" where
  "unescapeAmp [] = []"
| "unescapeAmp [c] = [c]"
| "unescapeAmp (c # d # s) =
     (if c = CHR 0x5C \<and> d = CHR ''&'' then
        (case lastEq (takeWhile (\<lambda>x. \<not> isLineTerminator x) s) of
           None \<Rightarrow> c # unescapeAmp (d # s)
         | Some j \<Rightarrow> CHR ''&'' # take j s @ CHR ''='' # unescapeAmp (drop (Suc j) s))
      else c # unescapeAmp (d # s))"
  by pat_completeness auto
termination
  by (relation "measure length") auto

definition updatableComment :: "string \<Rightarrow> comment list \<Rightarrow> comment option" where
  "updatableComment watermark comments =
     find (\<lambda>cm. str_includes (body cm) watermark) (rev comments)"

text \<open>
  The part of \<^verbatim>\<open>commentCreate\<close> that sets \<^verbatim>\<open>userReport\<close>: the option \<^verbatim>\<open>report\<close>, or
  else the contents of the markdown file; in watch mode a failure to read it is ignored.
\<close>

definition userReport :: "env \<Rightarrow> comment_opts \<Rightarrow> string option io" where
  "userReport w opts =
     io_catch
       (if \<not> truthy (co_report opts)
        then io_bind (io_call (FsReadFile (co_markdownFile opts)) (readFile w (co_markdownFile opts)))
               (\<lambda>text. io_return (Some text))
        else io_return (co_report opts))
       (\<lambda>err. if \<not> co_watch opts then io_throw err else io_return (co_report opts))"

text \<open>The report before publishing: the user's report, two line feeds, the watermark.\<close>

definition rawReport :: "string option \<Rightarrow> string \<Rightarrow> string" where
  "rawReport user watermark = toStr user @ [CHR 0x0A, CHR 0x0A] @ watermark"

text \<open>
  The part of \<^verbatim>\<open>commentCreate\<close> that builds \<^verbatim>\<open>report\<close>: with \<^verbatim>\<open>publish\<close> the local files
  are published, the tree is written out again and the escaped ampersands are restored.
\<close>

definition composeReport :: "cml \<Rightarrow> env \<Rightarrow> comment_opts \<Rightarrow> string \<Rightarrow> string io" where
  "composeReport c w opts watermark =
     io_bind (userReport w opts) (\<lambda>user.
     if co_publish opts
     then io_bind (publishLocalFiles c w opts (mdParse w (rawReport user watermark)))
            (\<lambda>tree. io_return (unescapeAmp (mdStringify w tree)))
     else io_return (rawReport user watermark))"

text \<open>
  The watch mode of \<^verbatim>\<open>commentCreate\<close>: it registers the handler and awaits
  \<^verbatim>\<open>waitForever()\<close>.  That function is imported and not among the sources; by its name,
  its promise is never settled.
\<close>

definition watchForever :: "comment_opts \<Rightarrow> unit io" where
  "watchForever opts =
     io_bind (io_call (WatcherAdd (if truthy (co_triggerFile opts)
                                   then co_triggerFile opts
                                   else co_markdownFile opts)) (Inr ())) (\<lambda>_.
     io_bind (io_call (WatcherOn ''all'') (Inr ())) (\<lambda>_.
     io_bind (io_call (Winston ''info'' ''watching for file changes...'') (Inr ())) (\<lambda>_.
     ([WaitForever], Forever))))"

text \<open>The end of \<^verbatim>\<open>commentCreate\<close>: the comment is updated or created.\<close>

definition postComment :: "env \<Rightarrow> comment_opts \<Rightarrow> string \<Rightarrow> string \<Rightarrow> string io" where
  "postComment w opts watermark report =
     io_bind (io_call ParseCommentTarget
                (parseCommentTarget w (co_commitSha opts) (co_pr opts)
                   (case co_target opts of None \<Rightarrow> ''auto'' | Some t \<Rightarrow> t)))
       (\<lambda>target.
     io_bind (if co_update opts
              then io_bind (io_call (DrvComments (tkind target @ ''Comments'') target)
                              (drvComments w (tkind target @ ''Comments'') target))
                     (\<lambda>comments. io_return (updatableComment watermark comments))
              else io_return None)
       (\<lambda>comment.
     (case comment of
        Some cm \<Rightarrow>
          io_call (DrvCommentUpdate (tkind target @ ''CommentUpdate'') report (comment_id cm) target)
            (drvCommentUpdate w (tkind target @ ''CommentUpdate'') report (comment_id cm) target)
      | None \<Rightarrow>
          io_call (DrvCommentCreate (tkind target @ ''CommentCreate'') report target)
            (drvCommentCreate w (tkind target @ ''CommentCreate'') report target))))"

text \<open>The watermark of a call: empty with \<^verbatim>\<open>rmWatermark\<close>.\<close>

definition watermarkOf :: "env \<Rightarrow> comment_opts \<Rightarrow> string" where
  "watermarkOf w opts =
     (if co_rmWatermark opts then []
      else genWatermark \<lparr>label = co_watermarkTitle opts, workflow = workflowId w, run = runId w\<rparr>)"

definition commentCreate :: "cml \<Rightarrow> env \<Rightarrow> comment_opts \<Rightarrow> string io" where
  "commentCreate c w opts =
     io_bind (io_pure (getDriver c)) (\<lambda>drv.
     if co_rmWatermark opts \<and> co_update opts
     then io_throw (newError ''watermarks are mandatory for updateable comments'')
     else
       io_bind (composeReport c w opts (watermarkOf w opts)) (\<lambda>report.
       io_bind (if co_watch opts then watchForever opts else io_return ()) (\<lambda>_.
       postComment w opts (watermarkOf w opts) report)))"

subsection \<open>The watch handler\<close>

text \<open>
  What one run of the handler of \<^verbatim>\<open>watcher.on('all', ...)\<close> does once it holds the lock:
  the publish and comment cycle, the removal of the trigger file, and the \<^verbatim>\<open>catch\<close> that
  logs any error of the two.
\<close>

definition watchCycle :: "cml \<Rightarrow> env \<Rightarrow> comment_opts \<Rightarrow> bool \<Rightarrow> string \<Rightarrow> string \<Rightarrow> unit io" where
  "watchCycle c w opts first event path =
     io_catch
       (io_bind (io_call (Winston ''info'' (''watcher event: '' @ event @ '' '' @ path)) (Inr ())) (\<lambda>_.
        io_bind (commentCreate c w (opts\<lparr>co_update := co_update opts \<or> \<not> first, co_watch := False\<rparr>)) (\<lambda>_.
        if event \<noteq> ''unlink'' \<and> Some path = co_triggerFile opts
        then io_call (FsUnlink (co_triggerFile opts)) (unlink w (co_triggerFile opts))
        else io_return ())))
       (\<lambda>err. io_call (Winston ''warn'' (emessage err)) (Inr ()))"

text \<open>
  The variables \<^verbatim>\<open>first\<close> and \<^verbatim>\<open>lock\<close> of the watch mode, with two counters that the
  source does not keep: the cycles that are running, and for each cycle started so far
  the \<^verbatim>\<open>update\<close> flag it was started with.
\<close>

record watch_state =
  wfirst :: bool
  lock :: bool
  inflight :: nat
  started :: "bool list"

definition watchInit :: watch_state where
  "watchInit = \<lparr>wfirst = True, lock = False, inflight = 0, started = []\<rparr>"

text \<open>
  JavaScript runs the handler without interruption up to its first \<^verbatim>\<open>await\<close>, and again
  from the end of the \<^verbatim>\<open>try\<close> statement to its return.  \<open>handlerEnter\<close> is the first
  stretch (the test of the lock and its taking), \<open>handlerExit\<close> the second.
\<close>

definition handlerEnter :: "bool \<Rightarrow> watch_state \<Rightarrow> watch_state" where
  "handlerEnter update s =
     (if lock s then s
      else s\<lparr>lock := True, inflight := inflight s + 1,
             started := started s @ [update \<or> \<not> wfirst s]\<rparr>)"

definition handlerExit :: "watch_state \<Rightarrow> watch_state" where
  "handlerExit s = s\<lparr>wfirst := False, lock := False, inflight := inflight s - 1\<rparr>"

text \<open>
  What can happen while the watcher runs: a file system event calls the handler, or
  the cycle of a running handler comes to its end (there must be one).
\<close>

datatype watch_event = FsEvent string string | CycleSettled

fun watchStep :: "bool \<Rightarrow> watch_state \<Rightarrow> watch_event \<Rightarrow> watch_state" where
  "watchStep update s (FsEvent event path) = handlerEnter update s"
| "watchStep update s CycleSettled = (if inflight s = 0 then s else handlerExit s)"

definition watchRun :: "bool \<Rightarrow> watch_state \<Rightarrow> watch_event list \<Rightarrow> watch_state" where
  "watchRun update s events = foldl (watchStep update) s events"

subsection \<open>\<^verbatim>\<open>parseRunnerLog\<close>\<close>

text \<open>
  The \<^verbatim>\<open>data\<close> option: a string, or a \<^verbatim>\<open>Buffer\<close> (given by the text it decodes to).
  Only \<^verbatim>\<open>undefined\<close> and the empty string are falsy.
\<close>

datatype js_data = Str string | Buf string

definition falsyData :: "js_data option \<Rightarrow> bool" where
  "falsyData data = (case data of None \<Rightarrow> True | Some (Str s) \<Rightarrow> s = [] | Some (Buf b) \<Rightarrow> False)"

definition dataToString :: "js_data option \<Rightarrow> string" where
  "dataToString data = (case data of None \<Rightarrow> [] | Some (Str s) \<Rightarrow> s | Some (Buf b) \<Rightarrow> b)"

record runner_opts =
  ro_data :: "js_data option"
  ro_name :: "string option"

record runner_log =
  log_status :: string
  log_date :: string
  log_repo :: string
  log_job :: "string option"
  log_pipeline :: "string option"
  log_success :: "bool option"
  log_level :: string

text \<open>\<^verbatim>\<open>parseId\<close>: the first capture group of the optional pattern on the text.\<close>

definition parseId :: "regex option \<Rightarrow> string \<Rightarrow> string option" where
  "parseId pattern data =
     (case pattern of
        None \<Rightarrow> None
      | Some regex \<Rightarrow>
          (case at (case regex data of None \<Rightarrow> [] | Some ms \<Rightarrow> ms) 1 of
             None \<Rightarrow> None
           | Some g \<Rightarrow> g))"

definition runners :: "cml \<Rightarrow> env \<Rightarrow> runner list io" where
  "runners c w = io_bind (io_pure (getDriver c)) (\<lambda>_. io_call DrvRunners (drvRunners w))"

definition runnerByName :: "cml \<Rightarrow> env \<Rightarrow> string option \<Rightarrow> runner option io" where
  "runnerByName c w name =
     io_bind (runners c w) (\<lambda>rs. io_return (find (\<lambda>r. Some (runner_name r) = name) rs))"

text \<open>\<^verbatim>\<open>patterns[status]\<close> for the three statuses of the loop.\<close>

definition patternOf :: "log_patterns \<Rightarrow> string \<Rightarrow> regex" where
  "patternOf ps status =
     (if status = ''ready'' then p_ready ps
      else if status = ''job_started'' then p_job_started ps
      else p_job_ended ps)"

text \<open>The body of the loop for a status whose pattern matched: the event.\<close>

definition logEvent :: "cml \<Rightarrow> env \<Rightarrow> log_patterns \<Rightarrow> string \<Rightarrow> string option \<Rightarrow> string \<Rightarrow> runner_log io" where
  "logEvent c w ps data name status =
     io_bind
       (if status = ''job_started''
        then (if truthy name \<and> driver c = Some GITHUB
              then io_bind (runnerByName c w name) (\<lambda>r.
                   case r of
                     None \<Rightarrow> io_throw (newTypeError ''Cannot destructure property 'id' of '(intermediate value)' as it is undefined.'')
                   | Some rn \<Rightarrow>
                       io_bind (io_call (DrvRunnerJob (runner_id rn)) (drvRunnerJob w (runner_id rn))) (\<lambda>j.
                       case j of
                         None \<Rightarrow> io_throw (newTypeError ''Cannot destructure property 'id' of '(intermediate value)' as it is undefined.'')
                       | Some ji \<Rightarrow> io_return (job_id ji, parseId (p_pipeline ps) data)))
              else io_return (parseId (p_job ps) data, parseId (p_pipeline ps) data))
        else io_return (None, None))
       (\<lambda>(job, pipeline).
          let success = (if status = ''job_ended'' then Some (test (p_job_ended_succeded ps) data) else None)
          in io_return
               \<lparr>log_status = status, log_date = now w status, log_repo = repo c,
                log_job = job, log_pipeline = pipeline, log_success = success,
                log_level = (if success = Some True then ''info'' else ''error'')\<rparr>)"

text \<open>The loop \<^verbatim>\<open>for (const status of [...])\<close>.\<close>

fun parseStatuses :: "cml \<Rightarrow> env \<Rightarrow> log_patterns \<Rightarrow> string \<Rightarrow> string option \<Rightarrow> string list \<Rightarrow> runner_log list io" where
  "parseStatuses c w ps data name [] = io_return []"
| "parseStatuses c w ps data name (status # rest) =
     (if test (patternOf ps status) data
      then io_bind (logEvent c w ps data name status) (\<lambda>log.
           io_bind (parseStatuses c w ps data name rest) (\<lambda>logs. io_return (log # logs)))
      else parseStatuses c w ps data name rest)"

definition parseRunnerLog :: "cml \<Rightarrow> env \<Rightarrow> runner_opts \<Rightarrow> runner_log list io" where
  "parseRunnerLog c w opts =
     (if falsyData (ro_data opts) then io_return []
      else io_bind (io_pure (getDriver c)) (\<lambda>drv.
           io_bind (io_call DrvRunnerLogPatterns (drvRunnerLogPatterns w)) (\<lambda>ps.
           parseStatuses c w ps (dataToString (ro_data opts)) (ro_name opts)
             [''ready'', ''job_started'', ''job_ended''])))"

subsection \<open>\<^verbatim>\<open>ci\<close>, \<^verbatim>\<open>triggerSha\<close> and \<^verbatim>\<open>branch\<close>\<close>

text \<open>The options of \<^verbatim>\<open>prCreate\<close>, with those that it hands on to \<^verbatim>\<open>ci\<close>.\<close>

record pr_opts =
  o_remote :: "string option"
  o_globs :: "string list"
  o_md :: bool
  o_skipCi :: bool
  o_branch :: "string option"
  o_message :: "string option"
  o_title :: "string option"
  o_body :: "string option"
  o_merge :: bool
  o_rebase :: bool
  o_squash :: bool
  o_unshallow :: bool
  o_fetchDepth :: "int option"
  o_userEmail :: "string option"
  o_userName :: "string option"

definition GIT_REMOTE :: string where "GIT_REMOTE = ''origin''"

definition remoteOf :: "pr_opts \<Rightarrow> string" where
  "remoteOf opts = (case o_remote opts of None \<Rightarrow> GIT_REMOTE | Some r \<Rightarrow> r)"

text \<open>
  The loop of \<^verbatim>\<open>ci\<close> over the commands of \<^verbatim>\<open>updateGitConfig\<close>: a failing command is
  fatal unless it starts with \<^verbatim>\<open>git config --unset\<close>.
\<close>

fun runCommands :: "env \<Rightarrow> string list list \<Rightarrow> unit io" where
  "runCommands w [] = io_return ()"
| "runCommands w (command # rest) =
     io_bind (io_catch (io_bind (io_call (Exec command) (exec w command)) (\<lambda>_. io_return ()))
                (\<lambda>err. if take 3 command \<noteq> [''git'', ''config'', ''--unset'']
                        then io_throw err else io_return ()))
       (\<lambda>_. runCommands w rest)"

definition ci :: "cml \<Rightarrow> env \<Rightarrow> pr_opts \<Rightarrow> string option io" where
  "ci c w opts =
     (let fetchDepth = (case o_fetchDepth opts of
                          None \<Rightarrow> (if o_unshallow opts then Some 0 else None)
                        | Some d \<Rightarrow> Some d)
      in
      io_bind (io_pure (getDriver c)) (\<lambda>drv.
      io_bind (io_call DrvUpdateGitConfig (drvUpdateGitConfig w)) (\<lambda>commands.
      io_bind (runCommands w commands) (\<lambda>_.
      case fetchDepth of
        None \<Rightarrow> io_return None
      | Some d \<Rightarrow>
          if d \<le> 0
          then io_bind (io_call (Exec [''git'', ''rev-parse'', ''--is-shallow-repository''])
                          (exec w [''git'', ''rev-parse'', ''--is-shallow-repository''])) (\<lambda>shallow.
               if shallow = ''true''
               then io_bind (io_call (Exec [''git'', ''fetch'', ''--all'', ''--tags'', ''--unshallow''])
                               (exec w [''git'', ''fetch'', ''--all'', ''--tags'', ''--unshallow'']))
                      (\<lambda>out. io_return (Some out))
               else io_return None)
          else io_bind (io_call (Exec [''git'', ''fetch'', ''--all'', ''--tags'', ''--depth'', showNat (nat d)])
                          (exec w [''git'', ''fetch'', ''--all'', ''--tags'', ''--depth'', showNat (nat d)]))
                 (\<lambda>out. io_return (Some out))))))"

definition revParse :: "env \<Rightarrow> string option io" where
  "revParse w =
     io_catch (io_bind (io_call (Exec [''git'', ''rev-parse'', ''HEAD''])
                          (exec w [''git'', ''rev-parse'', ''HEAD''])) (\<lambda>out. io_return (Some out)))
       (\<lambda>err. io_bind (io_call (Winston ''warn'' ''Failed to obtain SHA. Perhaps not in the correct git folder'')
                          (Inr ())) (\<lambda>_. io_return None))"

definition triggerSha :: "cml \<Rightarrow> env \<Rightarrow> string option io" where
  "triggerSha c w =
     io_bind (io_pure (getDriver c)) (\<lambda>drv.
     if truthy (drvSha w) then io_return (drvSha w) else revParse w)"

definition branch :: "cml \<Rightarrow> env \<Rightarrow> string io" where
  "branch c w =
     io_bind (io_pure (getDriver c)) (\<lambda>drv.
     if truthy (drvBranch w) then io_return (toStr (drvBranch w))
     else io_call (Exec [''git'', ''branch'', ''--show-current''])
            (exec w [''git'', ''branch'', ''--show-current'']))"

subsection \<open>\<^verbatim>\<open>prCreate\<close>\<close>

definition renderPr :: "cml \<Rightarrow> pr_opts \<Rightarrow> string \<Rightarrow> string" where
  "renderPr c opts url =
     (if o_md opts
      then ''[CML's '' @ (if driver c = Some GITLAB then ''Merge'' else ''Pull'') @ '' Request]('' @ url @ '')''
      else url)"

text \<open>
  The local constants that \<^verbatim>\<open>prCreate\<close> computes before it probes the remote: the
  changed paths that the globs select, the commit, and the two branch names.
\<close>

record pr_locals =
  l_paths :: "string list"
  l_sha :: string
  l_shaShort :: string
  l_target :: string
  l_source :: string

text \<open>
  The first part of \<^verbatim>\<open>prCreate\<close>, up to the computation of \<^verbatim>\<open>source\<close>.  It resolves to
  \<open>None\<close> where the source returns early because there is nothing to do.
\<close>

definition prLocals :: "cml \<Rightarrow> env \<Rightarrow> pr_opts \<Rightarrow> pr_locals option io" where
  "prLocals c w opts =
     io_bind (io_pure (getDriver c)) (\<lambda>drv.
     io_bind (ci c w opts) (\<lambda>_.
     io_bind (io_call GitStatus (gitStatus w)) (\<lambda>files.
     if files = [] \<and> o_globs opts \<noteq> []
     then io_bind (io_call (Winston ''warn'' ''No changed files matched by glob path. Nothing to do.'') (Inr ()))
            (\<lambda>_. io_return None)
     else
       io_bind (io_call (Globby (o_globs opts)) (globby w (o_globs opts))) (\<lambda>globbed.
       let paths = filter (\<lambda>path. path \<in> set files) globbed in
       if paths = [] \<and> o_globs opts \<noteq> []
       then io_bind (io_call (Winston ''warn'' ''Input files are not affected. Nothing to do.'') (Inr ()))
              (\<lambda>_. io_return None)
       else
         io_bind (triggerSha c w) (\<lambda>sha.
         case sha of
           None \<Rightarrow> io_throw (newTypeError ''Cannot read properties of undefined (reading 'substr')'')
         | Some sha \<Rightarrow>
             io_bind (branch c w) (\<lambda>target.
             io_return (Some \<lparr>l_paths = paths, l_sha = sha, l_shaShort = take 8 sha,
                              l_target = target,
                              l_source = (if truthy (o_branch opts) then toStr (o_branch opts)
                                          else target @ ''-cml-pr-'' @ take 8 sha)\<rparr>)))))))"

definition execGit :: "env \<Rightarrow> string list \<Rightarrow> string io" where
  "execGit w command = io_call (Exec command) (exec w command)"

text \<open>The test of \<^verbatim>\<open>prs.find\<close>: both branch names end with those of the request.\<close>

definition prMatches :: "pr_locals \<Rightarrow> pull_request \<Rightarrow> bool" where
  "prMatches l p = (endsWith (l_source l) (pr_source p) \<and> endsWith (l_target l) (pr_target p))"

text \<open>The argument that \<^verbatim>\<open>prCreate\<close> hands to the driver's \<^verbatim>\<open>prCreate\<close>.\<close>

definition prRequest :: "cml \<Rightarrow> pr_opts \<Rightarrow> pr_locals \<Rightarrow> pr_request" where
  "prRequest c opts l =
     \<lparr>rq_source = l_source l, rq_target = l_target l,
      rq_title = (if truthy (o_title opts) then toStr (o_title opts)
                  else ''CML PR for '' @ l_target l @ '' '' @ l_shaShort l),
      rq_description = (if truthy (o_body opts) then toStr (o_body opts)
                        else [CHR 0x0A] @ ''Automated commits for '' @ repo c @ ''/commit/'' @ l_sha l
                             @ '' created by CML.'' @ [CHR 0x0A] @ ''      ''),
      rq_skipCi = o_skipCi opts,
      rq_autoMerge = (if o_merge opts then Some ''merge''
                      else if o_rebase opts then Some ''rebase''
                      else if o_squash opts then Some ''squash'' else None)\<rparr>"

text \<open>The call of the driver's \<^verbatim>\<open>prCreate\<close> that ends the function.\<close>

definition openPr :: "cml \<Rightarrow> env \<Rightarrow> pr_opts \<Rightarrow> pr_locals \<Rightarrow> string option io" where
  "openPr c w opts l =
     io_bind (io_call (DrvPrCreate (prRequest c opts l)) (drvPrCreate w (prRequest c opts l)))
       (\<lambda>url. io_return (Some (renderPr c opts url)))"

text \<open>The variable \<^verbatim>\<open>commitMessage\<close>, with its mark for the CI to skip the commit.\<close>

definition commitMessage :: "pr_opts \<Rightarrow> pr_locals \<Rightarrow> string" where
  "commitMessage opts l =
     (if truthy (o_message opts) then toStr (o_message opts) else ''CML PR for '' @ l_shaShort l)
     @ (if o_skipCi opts \<or> (\<not> truthy (o_message opts)
            \<and> \<not> (o_merge opts \<or> o_rebase opts \<or> o_squash opts))
        then '' [skip ci]'' else [])"

text \<open>The commands of \<^verbatim>\<open>prCreate\<close> that read the remote's address and push the branch.\<close>

definition remoteUrlCommand :: "pr_opts \<Rightarrow> string list" where
  "remoteUrlCommand opts = [''git'', ''config'', ''--get'', ''remote.'' @ remoteOf opts @ ''.url'']"

definition pushCommand :: "pr_opts \<Rightarrow> pr_locals \<Rightarrow> string list" where
  "pushCommand opts l = [''git'', ''push'', ''--set-upstream'', remoteOf opts, l_source l]"

text \<open>The second part of \<^verbatim>\<open>prCreate\<close>, from the probe of the remote on.\<close>

definition prReconcile :: "cml \<Rightarrow> env \<Rightarrow> pr_opts \<Rightarrow> pr_locals \<Rightarrow> string option io" where
  "prReconcile c w opts l =
     io_bind (execGit w (remoteUrlCommand opts)) (\<lambda>remoteUrl.
     io_bind (execGit w [''git'', ''ls-remote'', remoteUrl, l_source l]) (\<lambda>refs.
     if str_includes refs (l_source l)
     then
       io_bind (io_call (DrvWarn (''Branch '' @ l_source l @ '' already exists'')) (Inr ())) (\<lambda>_.
       io_bind (io_call DrvPrs (drvPrs w)) (\<lambda>prs.
       let url = (case find (prMatches l) prs of None \<Rightarrow> None | Some p \<Rightarrow> pr_url p) in
       if truthy url then io_return (Some (renderPr c opts (toStr url)))
       else openPr c w opts l))
     else
       io_bind (execGit w [''git'', ''fetch'', remoteOf opts, l_sha l]) (\<lambda>_.
       io_bind (if l_paths l \<noteq> []
                then io_bind (execGit w [''git'', ''checkout'', ''-B'', l_target l, l_sha l]) (\<lambda>_. io_return ())
                else io_return ()) (\<lambda>_.
       io_bind (execGit w [''git'', ''checkout'', ''-b'', l_source l]) (\<lambda>_.
       io_bind (if l_paths l \<noteq> []
                then io_bind (execGit w ([''git'', ''add''] @ l_paths l)) (\<lambda>_.
                     io_bind (execGit w [''git'', ''commit'', ''-m'', commitMessage opts l]) (\<lambda>_. io_return ()))
                else io_return ()) (\<lambda>_.
       io_bind (execGit w (pushCommand opts l)) (\<lambda>_.
       openPr c w opts l)))))))"

definition prCreate :: "cml \<Rightarrow> env \<Rightarrow> pr_opts \<Rightarrow> string option io" where
  "prCreate c w opts =
     io_bind (prLocals c w opts) (\<lambda>locals.
     case locals of
       None \<Rightarrow> io_return None
     | Some l \<Rightarrow> prReconcile c w opts l)"

section \<open>Notions used in the statements\<close>

text \<open>
  A run identifier as the platforms issue it: a non-empty string of decimal digits.
\<close>

definition isRunId :: "string \<Rightarrow> bool" where
  "isRunId r = (r \<noteq> [] \<and> list_all (\<lambda>c. c \<in> set ''0123456789'') r)"

text \<open>The label of \<^verbatim>\<open>genWatermark\<close> after the first of its two replacements.\<close>

definition withWorkflow :: "watermark_opts \<Rightarrow> string" where
  "withWorkflow opts =
     replaceFirst ''{workflow}'' (toStr (workflow opts)) (case label opts of None \<Rightarrow> [] | Some l \<Rightarrow> l)"

text \<open>The fixed text of a watermark before and after the escaped title.\<close>

definition tokenHead :: string where
  "tokenHead = ''![]('' @ WATERMARK_IMAGE @ [CHR 0x20, CHR 0x22]"

definition tokenTail :: string where
  "tokenTail = [CHR 0x22, CHR '')'']"

text \<open>What the four replacements of \<^const>\<open>escapeTitle\<close> make of one character.\<close>

definition escapeChar :: "char \<Rightarrow> string" where
  "escapeChar c = (if c \<in> set ''_*[<'' then [CHR 0x5C, c] else [c])"

text \<open>Every opening bracket but the first character follows a backslash.\<close>

fun guarded :: "string \<Rightarrow> bool" where
  "guarded (c # d # s) = ((d = CHR ''['' \<longrightarrow> c = CHR 0x5C) \<and> guarded (d # s))"
| "guarded s = True"

text \<open>
  Modelled from the spec: the typed "sniff failed" error of the MIME detection.  The
  source declares no such error; an error counts as one here when its constructor's
  name or its message says so.
\<close>

definition sniffFailed :: "js_error \<Rightarrow> bool" where
  "sniffFailed e =
     (str_includes (ename e) ''Sniff'' \<or> str_includes (ename e) ''sniff''
      \<or> str_includes (emessage e) ''Sniff'' \<or> str_includes (emessage e) ''sniff'')"

text \<open>The error of the file system for a path that does not exist.\<close>

definition enoent :: "string \<Rightarrow> js_error" where
  "enoent path = JsError ''Error'' (''ENOENT: no such file or directory, stat '' @ path) (Some ''ENOENT'')"

text \<open>A pattern that is a literal text, such as \<^verbatim>\<open>/Running job/\<close>.\<close>

definition literalRegex :: "string \<Rightarrow> regex" where
  "literalRegex pat data = (if str_includes data pat then Some [Some pat] else None)"

text \<open>
  A sample of the outside world, on which the theorems below are instantiated: every
  call succeeds, there are no comments, no pull requests and no runners, and the log
  patterns are literal texts.
\<close>

definition samplePatterns :: log_patterns where
  "samplePatterns =
     \<lparr>p_ready = literalRegex ''Listening for Jobs'',
      p_job_started = literalRegex ''Running job'',
      p_job_ended = literalRegex ''completed with result'',
      p_job_ended_succeded = literalRegex ''completed with result: Succeeded'',
      p_job = None,
      p_pipeline = None\<rparr>"

definition sampleWorld :: env where
  "sampleWorld =
     \<lparr>readFile = (\<lambda>p. Inr ''# Report''),
      existsSync = (\<lambda>p. False),
      stat = (\<lambda>p. Inr 0),
      writeFile = (\<lambda>p. Inr ()),
      unlink = (\<lambda>p. Inr ()),
      tempyFile = ''/tmp/scratch'',
      magicFile = ''/cml/assets/magic.mgc'',
      resolveFrom = (\<lambda>file url. case file of
                       None \<Rightarrow> Inl (newTypeError ''The path argument must be of type string. Received undefined'')
                     | Some f \<Rightarrow> Inr (''/work/'' @ url)),
      basename = (\<lambda>p. p),
      getInstance = Inr (),
      detect = (\<lambda>p. Inr (Some ''image/png; charset=binary'')),
      httpPost = (\<lambda>u h. Inr (200, ''https://asset.cml.dev/abc'')),
      urlAppend = (\<lambda>uri k v. Inr (uri @ ''?'' @ k @ ''='' @ v)),
      preventcacheUri = (\<lambda>uri. Inr (uri @ ''&cache-bypass=0'')),
      mdParse = (\<lambda>text. MdNode ''root'' None None []),
      mdStringify = (\<lambda>tree. []),
      notAFunction = (\<lambda>name. name @ '' is not a function''),
      parseCommentTarget = (\<lambda>sha pr t. Inr \<lparr>tkind = ''commit'', tref = ''HEAD''\<rparr>),
      workflowId = Some ''7'',
      runId = Some ''42'',
      drvSha = Some ''0123456789abcdef'',
      drvBranch = Some ''main'',
      drvUpload = (\<lambda>p. Inr \<lparr>u_uri = ''https://example.com/abc'', u_mime = ''image/png'', u_size = 0\<rparr>),
      drvComments = (\<lambda>m t. Inr []),
      drvCommentUpdate = (\<lambda>m r i t. Inr ''updated''),
      drvCommentCreate = (\<lambda>m r t. Inr ''created''),
      drvPrs = Inr [],
      drvPrCreate = (\<lambda>rq. Inr ''https://example.com/pull/1''),
      drvUpdateGitConfig = Inr [],
      drvRunnerLogPatterns = Inr samplePatterns,
      drvRunners = Inr [],
      drvRunnerJob = (\<lambda>i. Inr None),
      exec = (\<lambda>command. Inr []),
      gitStatus = Inr [],
      globby = (\<lambda>globs. Inr []),
      now = (\<lambda>status. ''2026-01-01T00:00:00.000Z'')\<rparr>"

definition sampleCml :: cml where
  "sampleCml = \<lparr>repo = ''https://gitlab.com/acme/app'', token = None, driver = Some ''gitlab''\<rparr>"

definition samplePublishOpts :: publish_opts where
  "samplePublishOpts =
     \<lparr>po_path = None, po_buffer = None, po_mimeType = None, po_session = None,
      po_title = None, po_md = False, po_native = False, po_rmWatermark = False\<rparr>"

definition sampleCommentOpts :: comment_opts where
  "sampleCommentOpts =
     \<lparr>co_commitSha = None, co_markdownFile = Some ''report.md'', co_pr = None,
      co_publish = False, co_publishUrl = None, co_report = None, co_rmWatermark = False,
      co_target = None, co_triggerFile = None, co_update = False, co_watch = False,
      co_watermarkTitle = None, co_rest = samplePublishOpts\<rparr>"

text \<open>The file that \<^verbatim>\<open>mimeType\<close> hands to \<^verbatim>\<open>detect\<close>: \<^verbatim>\<open>buffer ? tmppath : path\<close>.\<close>

definition sniffTarget :: "env \<Rightarrow> publish_opts \<Rightarrow> string option" where
  "sniffTarget w opts = (if po_buffer opts \<noteq> None then Some (tempyFile w) else po_path opts)"

text \<open>The effects of a \<^verbatim>\<open>mimeType\<close> that gets as far as \<^verbatim>\<open>detect\<close>.\<close>

definition sniffTrace :: "env \<Rightarrow> publish_opts \<Rightarrow> effect list" where
  "sniffTrace w opts =
     [FsExists (magicFile w), MagicGetInstance]
     @ (if po_buffer opts \<noteq> None then [FsWriteFile (tempyFile w)] else [])
     @ [MagicDetect (sniffTarget w opts)]"

text \<open>Samples for the publishing of local files and for the update of a comment.\<close>

definition sampleImage :: md_node where
  "sampleImage = MdNode ''image'' (Some ''plot.png'') None []"

text \<open>The tree of a report of one paragraph with that image.\<close>

definition sampleTree :: md_node where
  "sampleTree = MdNode ''root'' None None [MdNode ''paragraph'' None None [sampleImage]]"

text \<open>The node of a tree at a position, if there is one.\<close>

fun nodeAt :: "md_node \<Rightarrow> nat list \<Rightarrow> md_node option" where
  "nodeAt node [] = Some node"
| "nodeAt node (i # p) = (if i < length (children node) then nodeAt (children node ! i) p else None)"

text \<open>
  The tree of a report of three paragraphs: two images with a blank between them, two
  more, and the watermark.
\<close>

definition imageOf :: "string \<Rightarrow> md_node" where
  "imageOf url = MdNode ''image'' (Some url) None []"

definition blank :: md_node where
  "blank = MdNode ''text'' None None []"

definition paragraphOf :: "md_node list \<Rightarrow> md_node" where
  "paragraphOf cs = MdNode ''paragraph'' None None cs"

definition fourImages :: md_node where
  "fourImages = MdNode ''root'' None None
     [paragraphOf [imageOf ''a.png'', blank, imageOf ''b.png''],
      paragraphOf [imageOf ''c.png'', blank, imageOf ''d.png''],
      paragraphOf [MdNode ''image'' (Some WATERMARK_IMAGE) (Some ''CML watermark'') []]]"

definition eacces :: js_error where
  "eacces = JsError ''Error'' ''EACCES: permission denied'' (Some ''EACCES'')"

text \<open>A world in which that report is parsed and the file of its fourth image cannot be read.\<close>

definition skipWorld :: env where
  "skipWorld = sampleWorld
     \<lparr>stat := (\<lambda>p. if p = ''/work/d.png'' then Inl eacces else Inr 0),
      mdParse := (\<lambda>text. fourImages)\<rparr>"

definition sampleWatermark :: string where
  "sampleWatermark = genWatermark \<lparr>label = None, workflow = Some ''7'', run = Some ''42''\<rparr>"

text \<open>Samples for the opening of a pull request.\<close>

definition samplePrOpts :: pr_opts where
  "samplePrOpts =
     \<lparr>o_remote = None, o_globs = [''plot.png''], o_md = False, o_skipCi = False, o_branch = None,
      o_message = None, o_title = None, o_body = None, o_merge = False, o_rebase = False,
      o_squash = False, o_unshallow = False, o_fetchDepth = None, o_userEmail = None,
      o_userName = None\<rparr>"

definition sampleLocals :: pr_locals where
  "sampleLocals =
     \<lparr>l_paths = [''plot.png''], l_sha = ''0123456789abcdef'', l_shaShort = ''01234567'',
      l_target = ''main'', l_source = ''main-cml-pr-01234567''\<rparr>"

text \<open>The world before the first call: a changed file, and no branch on the remote.\<close>

definition worldBefore :: env where
  "worldBefore = sampleWorld
     \<lparr>exec := (\<lambda>command. if take 3 command = [''git'', ''config'', ''--get'']
                          then Inr ''https://gitlab.com/acme/app.git'' else Inr []),
      gitStatus := Inr [''plot.png''], globby := (\<lambda>globs. Inr [''plot.png''])\<rparr>"

text \<open>
  The world after it: the branch is on the remote, and the driver lists the new pull
  request after one of another branch.
\<close>

definition worldAfter :: env where
  "worldAfter = worldBefore
     \<lparr>exec := (\<lambda>command. if take 3 command = [''git'', ''config'', ''--get'']
                          then Inr ''https://gitlab.com/acme/app.git''
                          else if take 2 command = [''git'', ''ls-remote'']
                          then Inr ''0123456789abcdef refs/heads/main-cml-pr-01234567'' else Inr []),
      drvPrs := Inr [\<lparr>pr_url = Some ''https://example.com/pull/0'',
                       pr_source = ''fix-typo'', pr_target = ''main''\<rparr>,
                     \<lparr>pr_url = Some ''https://example.com/pull/1'',
                       pr_source = ''main-cml-pr-01234567'', pr_target = ''main''\<rparr>]\<rparr>"

text \<open>
  The same on the branch \<^verbatim>\<open>dev-main\<close>, at the commit at which a pull request of the
  branch \<^verbatim>\<open>main\<close> is open already.  Before the first call the remote has no branch
  \<^verbatim>\<open>dev-main-cml-pr-01234567\<close>; the driver will open the pull request 8.
\<close>

definition devLocals :: pr_locals where
  "devLocals =
     \<lparr>l_paths = [''plot.png''], l_sha = ''0123456789abcdef'', l_shaShort = ''01234567'',
      l_target = ''dev-main'', l_source = ''dev-main-cml-pr-01234567''\<rparr>"

definition devBefore :: env where
  "devBefore = worldBefore
     \<lparr>drvBranch := Some ''dev-main'',
      drvPrs := Inr [\<lparr>pr_url = Some ''https://example.com/pull/7'',
                       pr_source = ''main-cml-pr-01234567'', pr_target = ''main''\<rparr>],
      drvPrCreate := (\<lambda>rq. Inr ''https://example.com/pull/8'')\<rparr>"

text \<open>After the first call the branch is on the remote and the new pull request is listed.\<close>

definition devAfter :: env where
  "devAfter = devBefore
     \<lparr>exec := (\<lambda>command. if take 3 command = [''git'', ''config'', ''--get'']
                          then Inr ''https://gitlab.com/acme/app.git''
                          else if take 2 command = [''git'', ''ls-remote'']
                          then Inr ''0123456789abcdef refs/heads/dev-main-cml-pr-01234567'' else Inr []),
      drvPrs := Inr [\<lparr>pr_url = Some ''https://example.com/pull/7'',
                       pr_source = ''main-cml-pr-01234567'', pr_target = ''main''\<rparr>,
                     \<lparr>pr_url = Some ''https://example.com/pull/8'',
                       pr_source = ''dev-main-cml-pr-01234567'', pr_target = ''dev-main''\<rparr>]\<rparr>"

section \<open>Strings\<close>

lemma str_includes_iff: "str_includes s t \<longleftrightarrow> (\<exists>ps ss. s = ps @ t @ ss)"
proof (induction s)
  case Nil
  then show ?case by auto
next
  case (Cons c s)
  show ?case
  proof
    assume "str_includes (c # s) t"
    then consider "prefix t (c # s)" | "str_includes s t" by auto
    then show "\<exists>ps ss. c # s = ps @ t @ ss"
    proof cases
      case 1
      then obtain ss where "c # s = t @ ss" by (auto simp: prefix_def)
      then have "c # s = [] @ t @ ss" by simp
      then show ?thesis by blast
    next
      case 2
      with Cons.IH obtain ps ss where "s = ps @ t @ ss" by blast
      then have "c # s = (c # ps) @ t @ ss" by simp
      then show ?thesis by blast
    qed
  next
    assume "\<exists>ps ss. c # s = ps @ t @ ss"
    then obtain ps ss where e: "c # s = ps @ t @ ss" by blast
    show "str_includes (c # s) t"
    proof (cases ps)
      case Nil
      with e have "prefix t (c # s)" by (simp add: prefix_def)
      then show ?thesis by simp
    next
      case (Cons a ps')
      with e have "s = ps' @ t @ ss" by simp
      with Cons.IH have "str_includes s t" by blast
      then show ?thesis by simp
    qed
  qed
qed

lemma str_includes_self: "str_includes s s"
  by (cases s) auto

lemma replaceAllChar_Cons:
  "replaceAllChar c rep (x # s) = (if x = c then rep else [x]) @ replaceAllChar c rep s"
  by (simp add: replaceAllChar_def)

lemma replaceAllChar_Nil: "replaceAllChar c rep [] = []"
  by (simp add: replaceAllChar_def)

lemma escapeTitle_concat: "escapeTitle s = concat (map escapeChar s)"
proof (induction s)
  case Nil
  then show ?case by (simp add: escapeTitle_def patterns_def replaceAllChar_Nil)
next
  case (Cons x s)
  then show ?case
    by (simp add: escapeTitle_def patterns_def replaceAllChar_Cons replaceAllChar_Nil escapeChar_def)
qed

lemma escapeTitle_append: "escapeTitle (a @ b) = escapeTitle a @ escapeTitle b"
  by (simp add: escapeTitle_concat)

lemma escapeChar_digit: "c \<in> set ''0123456789'' \<Longrightarrow> escapeChar c = [c]"
  by (auto simp: escapeChar_def)

lemma escapeTitle_runid: "isRunId r \<Longrightarrow> escapeTitle r = r"
proof -
  have "list_all (\<lambda>c. c \<in> set ''0123456789'') r \<Longrightarrow> concat (map escapeChar r) = r"
    by (induction r) (simp_all add: escapeChar_digit del: set_simps)
  then show "isRunId r \<Longrightarrow> escapeTitle r = r"
    by (simp add: isRunId_def escapeTitle_concat)
qed

lemma guarded_decomp: "guarded s \<Longrightarrow> s = xs @ c # CHR ''['' # ys \<Longrightarrow> c = CHR 0x5C"
proof (induction xs arbitrary: s)
  case Nil
  then show ?case by simp
next
  case (Cons x xs)
  then obtain s' where s: "s = x # s'" and s': "s' = xs @ c # CHR ''['' # ys" by auto
  from s' obtain d s'' where "s' = d # s''" by (cases xs) auto
  with Cons.prems(1) s have "guarded s'" by simp
  with Cons.IH s' show ?case by blast
qed

lemma guarded_escaped: "guarded (c # concat (map escapeChar t) @ [CHR 0x22, CHR '')''])"
proof (induction t arbitrary: c)
  case Nil
  then show ?case by simp
next
  case (Cons x t)
  show ?case
  proof (cases "x \<in> set ''_*[<''")
    case True
    then have "escapeChar x = [CHR 0x5C, x]" by (simp add: escapeChar_def)
    with Cons[of x] show ?thesis by simp
  next
    case False
    then have "escapeChar x = [x]" and "x \<noteq> CHR ''[''" by (auto simp: escapeChar_def)
    with Cons[of x] show ?thesis by simp
  qed
qed

text \<open>A word that can be moved through another one consists of its letters.\<close>

lemma word_shift:
  "w \<noteq> [] \<Longrightarrow> w @ z = z @ ss \<Longrightarrow> set z \<subseteq> set w"
proof (induction z rule: length_induct)
  case (1 z)
  show ?case
  proof (cases "length z \<le> length w")
    case True
    from 1(3) have "take (length z) (w @ z) = z" by simp
    with True have "z = take (length z) w" by simp
    then have "set z \<subseteq> set (take (length z) w)" by simp
    then show ?thesis using set_take_subset by fast
  next
    case False
    from 1(3) have "take (length w) (w @ z) = take (length w) (z @ ss)" by simp
    with False have w: "w = take (length w) z" by simp
    define z' where "z' = drop (length w) z"
    from w have z: "z = w @ z'" unfolding z'_def by (metis append_take_drop_id)
    with 1(3) have "w @ z' = z' @ ss" by simp
    moreover from z 1(2) have "length z' < length z" by simp
    ultimately have "set z' \<subseteq> set w" using 1(1) 1(2) by blast
    with z show ?thesis by (metis Un_least order_refl set_append)
  qed
qed

lemma splitAtFirst_Some: "splitAtFirst pat s = Some (b, a) \<Longrightarrow> s = b @ pat @ a"
proof (induction s arbitrary: b)
  case Nil
  then show ?case by (simp split: if_splits)
next
  case (Cons c s)
  show ?case
  proof (cases "prefix pat (c # s)")
    case True
    with Cons.prems have "b = []" and "a = drop (length pat) (c # s)" by simp_all
    moreover from True have "c # s = pat @ drop (length pat) (c # s)"
      by (metis append_eq_conv_conj prefix_def)
    ultimately show ?thesis by simp
  next
    case False
    with Cons.prems obtain b' where "splitAtFirst pat s = Some (b', a)" and "b = c # b'"
      by auto
    with Cons.IH show ?thesis by simp
  qed
qed

lemma splitAtFirst_None: "splitAtFirst pat s = None \<longleftrightarrow> \<not> str_includes s pat"
  by (induction s) auto

lemma getSubstitution_plain: "CHR ''$'' \<notin> set r \<Longrightarrow> getSubstitution m b a r = r"
  by (induction m b a r rule: getSubstitution.induct) auto

lemma replaceFirst_absent: "\<not> str_includes s pat \<Longrightarrow> replaceFirst pat rep s = s"
proof -
  assume "\<not> str_includes s pat"
  then have "splitAtFirst pat s = None" by (simp add: splitAtFirst_None)
  then show ?thesis by (simp add: replaceFirst_def)
qed

lemma replaceFirst_present:
  assumes "str_includes s pat"
  obtains b a where "s = b @ pat @ a"
    and "\<And>r. CHR ''$'' \<notin> set r \<Longrightarrow> replaceFirst pat r s = b @ r @ a"
proof -
  from assms obtain b a where sp: "splitAtFirst pat s = Some (b, a)"
    using splitAtFirst_None by (cases "splitAtFirst pat s") auto
  then have "s = b @ pat @ a" by (rule splitAtFirst_Some)
  moreover have "replaceFirst pat r s = b @ r @ a" if "CHR ''$'' \<notin> set r" for r
    using sp that by (simp add: replaceFirst_def getSubstitution_plain)
  ultimately show thesis using that by blast
qed

lemma trimEnd_keep:
  assumes "r \<noteq> []" and "\<not> isWhiteSpace (last r)"
  shows "trimEnd (x @ r @ post) = x @ r @ trimEnd post"
proof -
  from assms(1) obtain r' where r: "r = r' @ [last r]" by (metis append_butlast_last_id)
  have "rev (x @ (r' @ [last r]) @ post) = rev post @ last r # rev r' @ rev x"
    by simp
  moreover have "dropWhile isWhiteSpace (rev post @ last r # rev r' @ rev x)
      = dropWhile isWhiteSpace (rev post) @ last r # rev r' @ rev x"
    using assms(2) by (rule dropWhile_append3)
  ultimately have "trimEnd (x @ (r' @ [last r]) @ post) = x @ (r' @ [last r]) @ trimEnd post"
    by (simp add: trimEnd_def)
  with r show ?thesis by simp
qed

lemma runid_props:
  assumes "isRunId r"
  shows "r \<noteq> []" and "\<not> isWhiteSpace (last r)" and "CHR ''$'' \<notin> set r"
    and "CHR 0x22 \<notin> set r"
proof -
  from assms show ne: "r \<noteq> []" by (simp add: isRunId_def)
  from assms have d: "\<And>c. c \<in> set r \<Longrightarrow> c \<in> set ''0123456789''"
    by (simp add: isRunId_def list_all_iff)
  have w: "\<And>c. c \<in> set ''0123456789'' \<Longrightarrow> \<not> isWhiteSpace c \<and> c \<noteq> CHR ''$'' \<and> c \<noteq> CHR 0x22"
    by (auto simp: isWhiteSpace_def)
  from ne have "last r \<in> set r" by simp
  with d w show "\<not> isWhiteSpace (last r)" by blast
  from d w show "CHR ''$'' \<notin> set r" by blast
  from d w show "CHR 0x22 \<notin> set r" by blast
qed

section \<open>The watermark identifies a report\<close>

lemma genWatermark_shape:
  "genWatermark opts =
     tokenHead @ escapeTitle (trim (''CML watermark '' @ replaceFirst ''{run}'' (toStr (run opts)) (withWorkflow opts))) @ tokenTail"
  by (simp add: genWatermark_def withWorkflow_def tokenHead_def tokenTail_def Let_def)

lemma trimStart_title: "trimStart (''CML watermark '' @ x) = ''CML watermark '' @ x"
  by (simp add: trimStart_def isWhiteSpace_def)

lemma genWatermark_no_placeholder:
  assumes "\<not> str_includes (withWorkflow opts) ''{run}''"
  shows "genWatermark (opts\<lparr>run := r\<rparr>) = genWatermark opts"
proof -
  have w: "withWorkflow (opts\<lparr>run := r\<rparr>) = withWorkflow opts"
    by (simp add: withWorkflow_def)
  from assms have "replaceFirst ''{run}'' rep (withWorkflow opts) = withWorkflow opts" for rep
    by (rule replaceFirst_absent)
  then show ?thesis by (simp only: genWatermark_shape w)
qed

lemma genWatermark_run_id:
  assumes "str_includes (withWorkflow opts) ''{run}''"
  obtains t z where
    "\<And>r. isRunId r \<Longrightarrow>
       genWatermark (opts\<lparr>run := Some r\<rparr>) = tokenHead @ escapeTitle t @ r @ escapeTitle z @ tokenTail"
proof -
  obtain b a where
    rep: "\<And>r. CHR ''$'' \<notin> set r \<Longrightarrow> replaceFirst ''{run}'' r (withWorkflow opts) = b @ r @ a"
    using replaceFirst_present[OF assms] by blast
  have "genWatermark (opts\<lparr>run := Some r\<rparr>)
      = tokenHead @ escapeTitle (''CML watermark '' @ b) @ r @ escapeTitle (trimEnd a) @ tokenTail"
    if r: "isRunId r" for r
  proof -
    have w: "withWorkflow (opts\<lparr>run := Some r\<rparr>) = withWorkflow opts"
      by (simp add: withWorkflow_def)
    have "replaceFirst ''{run}'' (toStr (run (opts\<lparr>run := Some r\<rparr>))) (withWorkflow opts) = b @ r @ a"
      using rep runid_props(3)[OF r] by (simp add: toStr_def)
    moreover have "trim (''CML watermark '' @ b @ r @ a) = (''CML watermark '' @ b) @ r @ trimEnd a"
      using trimEnd_keep[OF runid_props(1)[OF r] runid_props(2)[OF r], of "''CML watermark '' @ b" a]
      by (simp only: trim_def trimStart_title append_assoc)
    ultimately show ?thesis
      by (simp only: genWatermark_shape w escapeTitle_append escapeTitle_runid[OF r] append_assoc)
  qed
  then show thesis using that by blast
qed

lemma token_head_unique:
  assumes "tokenHead @ escapeTitle t @ tokenTail = ps @ tokenHead @ rest"
  shows "ps = []"
proof (cases ps)
  case Nil
  then show ?thesis .
next
  case (Cons x ps')
  have g: "guarded (''[](https://cml.dev/watermark.png '' @ CHR 0x22 # concat (map escapeChar t) @ [CHR 0x22, CHR '')''])"
    by (simp add: guarded_escaped)
  from assms Cons have
    "''[](https://cml.dev/watermark.png '' @ CHR 0x22 # concat (map escapeChar t) @ [CHR 0x22, CHR '')'']
       = ps' @ CHR ''!'' # CHR ''['' # (''](https://cml.dev/watermark.png '' @ CHR 0x22 # rest)"
    by (simp add: tokenHead_def tokenTail_def WATERMARK_IMAGE_def escapeTitle_concat)
  with g have "CHR ''!'' = CHR 0x5C" by (rule guarded_decomp)
  then show ?thesis by simp
qed

lemma tokens_differ:
  assumes r1: "isRunId r1" and r2: "isRunId r2" and ne: "r1 \<noteq> r2"
  shows "\<not> str_includes (tokenHead @ escapeTitle t @ r1 @ escapeTitle z @ tokenTail)
                         (tokenHead @ escapeTitle t @ r2 @ escapeTitle z @ tokenTail)"
proof
  define Z where "Z = escapeTitle z @ tokenTail"
  define E where "E = escapeTitle t"
  assume "str_includes (tokenHead @ escapeTitle t @ r1 @ escapeTitle z @ tokenTail)
                         (tokenHead @ escapeTitle t @ r2 @ escapeTitle z @ tokenTail)"
  then have "str_includes (tokenHead @ E @ r1 @ Z) (tokenHead @ E @ r2 @ Z)"
    by (simp only: Z_def E_def)
  then obtain ps ss where
    e: "tokenHead @ E @ r1 @ Z = ps @ (tokenHead @ E @ r2 @ Z) @ ss"
    unfolding str_includes_iff by blast
  have "tokenHead @ escapeTitle (t @ r1 @ z) @ tokenTail = tokenHead @ E @ r1 @ Z"
    by (simp only: escapeTitle_append escapeTitle_runid[OF r1] Z_def E_def append_assoc)
  also have "\<dots> = ps @ tokenHead @ (E @ r2 @ Z @ ss)"
    using e by (simp only: append_assoc)
  finally have "ps = []" by (rule token_head_unique)
  with e have "(tokenHead @ E) @ r1 @ Z = (tokenHead @ E) @ r2 @ (Z @ ss)"
    by (simp only: append_Nil append_assoc)
  then have "r1 @ Z = r2 @ (Z @ ss)" by (simp only: same_append_eq)
  then obtain us where "r1 = r2 @ us \<and> us @ Z = Z @ ss \<or> r1 @ us = r2 \<and> Z = us @ Z @ ss"
    unfolding append_eq_append_conv2[of r1 Z r2 "Z @ ss"] by blast
  then show False
  proof
    assume a: "r1 = r2 @ us \<and> us @ Z = Z @ ss"
    with ne have "us \<noteq> []" by auto
    moreover from a have "us @ Z = Z @ ss" by simp
    ultimately have "set Z \<subseteq> set us" by (rule word_shift)
    moreover have "CHR 0x22 \<in> set Z" by (simp add: tokenTail_def Z_def)
    ultimately have "CHR 0x22 \<in> set us" by blast
    with a have "CHR 0x22 \<in> set r1" by simp
    with runid_props(4)[OF r1] show False by blast
  next
    assume a: "r1 @ us = r2 \<and> Z = us @ Z @ ss"
    then have "length Z = length (us @ Z @ ss)" by simp
    then have "us = []" by simp
    with a ne show False by simp
  qed
qed

text \<open>
  C2, as amended.  The rendered token matches itself, and so does every comment body
  that contains it.  The run enters the token only through the placeholder \<^verbatim>\<open>{run}\<close> of the label: when the
  label (after the replacement of \<^verbatim>\<open>{workflow}\<close>) has no such placeholder, the token is
  the same for every run; when it has one, the tokens of two different run identifiers
  (non-empty strings of digits) do not match each other.
\<close>

theorem watermark_roundtrip:
  "matches (genWatermark p) (genWatermark p) \<and>
   matches (before @ genWatermark p @ after) (genWatermark p) \<and>
   (\<not> str_includes (withWorkflow p) ''{run}'' \<longrightarrow> genWatermark (p\<lparr>run := r\<rparr>) = genWatermark p) \<and>
   (str_includes (withWorkflow p) ''{run}'' \<and> isRunId r1 \<and> isRunId r2 \<and> r1 \<noteq> r2 \<longrightarrow>
      \<not> matches (genWatermark (p\<lparr>run := Some r1\<rparr>)) (genWatermark (p\<lparr>run := Some r2\<rparr>)))"
proof (intro conjI impI)
  show "matches (genWatermark p) (genWatermark p)"
    by (simp add: matches_def str_includes_self)
next
  show "matches (before @ genWatermark p @ after) (genWatermark p)"
    unfolding matches_def str_includes_iff by blast
next
  assume "\<not> str_includes (withWorkflow p) ''{run}''"
  then show "genWatermark (p\<lparr>run := r\<rparr>) = genWatermark p"
    by (rule genWatermark_no_placeholder)
next
  assume a: "str_includes (withWorkflow p) ''{run}'' \<and> isRunId r1 \<and> isRunId r2 \<and> r1 \<noteq> r2"
  then obtain t z where
    sh: "\<And>r. isRunId r \<Longrightarrow>
       genWatermark (p\<lparr>run := Some r\<rparr>) = tokenHead @ escapeTitle t @ r @ escapeTitle z @ tokenTail"
    using genWatermark_run_id by blast
  from a show "\<not> matches (genWatermark (p\<lparr>run := Some r1\<rparr>)) (genWatermark (p\<lparr>run := Some r2\<rparr>))"
    by (simp add: matches_def sh tokens_differ)
qed


text \<open>The theorem at a label with both placeholders and at the default label.\<close>

theorem watermark_roundtrip_witness:
  "matches (genWatermark \<lparr>label = Some ''{workflow}/{run}'', workflow = Some ''build'', run = None\<rparr>)
           (genWatermark \<lparr>label = Some ''{workflow}/{run}'', workflow = Some ''build'', run = None\<rparr>)
   \<and> matches (''# Report'' @ genWatermark \<lparr>label = Some ''{workflow}/{run}'', workflow = Some ''build'', run = None\<rparr> @ [])
           (genWatermark \<lparr>label = Some ''{workflow}/{run}'', workflow = Some ''build'', run = None\<rparr>)
   \<and> genWatermark \<lparr>label = None, workflow = Some ''build'', run = Some ''2''\<rparr>
       = genWatermark \<lparr>label = None, workflow = Some ''build'', run = Some ''1''\<rparr>
   \<and> \<not> matches (genWatermark \<lparr>label = Some ''{workflow}/{run}'', workflow = Some ''build'', run = Some ''41''\<rparr>)
               (genWatermark \<lparr>label = Some ''{workflow}/{run}'', workflow = Some ''build'', run = Some ''412''\<rparr>)"
proof -
  have a: "str_includes (withWorkflow \<lparr>label = Some ''{workflow}/{run}'', workflow = Some ''build'', run = None\<rparr>) ''{run}''"
    by (simp add: withWorkflow_def replaceFirst_def toStr_def)
  have b: "\<not> str_includes (withWorkflow \<lparr>label = None, workflow = Some ''build'', run = Some ''1''\<rparr>) ''{run}''"
    by (simp add: withWorkflow_def replaceFirst_def)
  have c: "isRunId ''41''" "isRunId ''412''" "''41'' \<noteq> ''412''"
    by (simp_all add: isRunId_def)
  show ?thesis
    using a c
      watermark_roundtrip[of "\<lparr>label = Some ''{workflow}/{run}'', workflow = Some ''build'', run = None\<rparr>"
        "''# Report''" "[]" "None" "''41''" "''412''"]
      b watermark_roundtrip[of "\<lparr>label = None, workflow = Some ''build'', run = Some ''1''\<rparr>"
        "[]" "[]" "Some ''2''" "''1''" "''2''"]
    by simp
qed

text \<open>
  C2 as stated fails: with the default label the tokens of two different runs are the
  same text, so each matches the other.
\<close>

theorem watermark_same_for_runs:
  "matches (genWatermark \<lparr>label = None, workflow = Some ''build'', run = Some ''1''\<rparr>)
           (genWatermark \<lparr>label = None, workflow = Some ''build'', run = Some ''2''\<rparr>)"
proof -
  have "\<not> str_includes (withWorkflow \<lparr>label = None, workflow = Some ''build'', run = Some ''1''\<rparr>) ''{run}''"
    by (simp add: withWorkflow_def replaceFirst_def)
  then have "genWatermark (\<lparr>label = None, workflow = Some ''build'', run = Some ''1''\<rparr>\<lparr>run := Some ''2''\<rparr>)
      = genWatermark \<lparr>label = None, workflow = Some ''build'', run = Some ''1''\<rparr>"
    by (rule genWatermark_no_placeholder)
  then show ?thesis by (simp add: matches_def str_includes_self)
qed

section \<open>Configuration errors of \<^verbatim>\<open>commentCreate\<close>\<close>

lemma io_bind_Resolved: "io_bind (t, Resolved x) f = (t @ fst (f x), snd (f x))"
  by (simp add: io_bind_def split: prod.splits)

lemma io_bind_Rejected: "io_bind (t, Rejected e) f = (t, Rejected e)"
  by (simp add: io_bind_def)

lemma io_bind_Forever: "io_bind (t, Forever) f = (t, Forever)"
  by (simp add: io_bind_def)

lemma io_bind_return: "io_bind (io_return x) f = f x"
  by (simp add: io_return_def io_bind_Resolved)

lemma io_bind_throw: "io_bind (io_throw e) f = io_throw e"
  by (simp add: io_throw_def io_bind_Rejected)

lemma io_pure_Inl: "io_pure (Inl e) = io_throw e"
  by (simp add: io_pure_def io_throw_def settled_def)

lemma io_pure_Inr: "io_pure (Inr x) = io_return x"
  by (simp add: io_pure_def io_return_def settled_def)

lemma io_call_Inl: "io_call eff (Inl e) = ([eff], Rejected e)"
  by (simp add: io_call_def settled_def)

lemma io_call_Inr: "io_call eff (Inr x) = ([eff], Resolved x)"
  by (simp add: io_call_def settled_def)

lemmas io_simps = io_bind_Resolved io_bind_Rejected io_bind_Forever io_bind_return io_bind_throw
  io_pure_Inl io_pure_Inr io_call_Inl io_call_Inr

text \<open>
  C5.  When \<^verbatim>\<open>rmWatermark\<close> and \<^verbatim>\<open>update\<close> are both set, \<^verbatim>\<open>commentCreate\<close> is rejected
  with a configuration error (that of \<^verbatim>\<open>getDriver\<close>, or else the one about mandatory
  watermarks) and has made no call to the outside: its trace is empty.
\<close>

theorem watermark_update_conflict:
  "co_rmWatermark opts \<and> co_update opts \<longrightarrow>
     commentCreate c w opts =
       ([], Rejected (case getDriver c of
                        Inl e \<Rightarrow> e
                      | Inr drv \<Rightarrow> newError ''watermarks are mandatory for updateable comments''))"
proof
  assume a: "co_rmWatermark opts \<and> co_update opts"
  show "commentCreate c w opts =
       ([], Rejected (case getDriver c of
                        Inl e \<Rightarrow> e
                      | Inr drv \<Rightarrow> newError ''watermarks are mandatory for updateable comments''))"
  proof (cases "getDriver c")
    case (Inl e)
    then show ?thesis by (simp add: commentCreate_def io_simps io_throw_def)
  next
    case (Inr drv)
    with a show ?thesis by (simp add: commentCreate_def io_simps io_throw_def)
  qed
qed

theorem watermark_update_conflict_witness:
  "co_rmWatermark (sampleCommentOpts\<lparr>co_rmWatermark := True, co_update := True\<rparr>)
   \<and> co_update (sampleCommentOpts\<lparr>co_rmWatermark := True, co_update := True\<rparr>)
   \<and> commentCreate sampleCml sampleWorld (sampleCommentOpts\<lparr>co_rmWatermark := True, co_update := True\<rparr>)
       = ([], Rejected (newError ''watermarks are mandatory for updateable comments''))"
  using watermark_update_conflict[of "sampleCommentOpts\<lparr>co_rmWatermark := True, co_update := True\<rparr>"
      sampleCml sampleWorld]
  by (simp add: getDriver_def sampleCml_def truthy_def GITHUB_def GITLAB_def)

section \<open>The runner log without data\<close>

text \<open>
  C10, as amended.  When the \<^verbatim>\<open>data\<close> option is absent or the empty string,
  \<^verbatim>\<open>parseRunnerLog\<close> resolves to the empty list whatever the configuration and the
  outside world are, and makes no call: neither the driver nor a pattern is used.
\<close>

theorem parseRunnerLog_no_data:
  "ro_data opts = None \<or> ro_data opts = Some (Str []) \<Longrightarrow> parseRunnerLog c w opts = ([], Resolved [])"
  by (auto simp: parseRunnerLog_def falsyData_def io_return_def)

theorem parseRunnerLog_no_data_witness:
  "parseRunnerLog \<lparr>repo = ''https://github.com/acme/app'', token = None, driver = None\<rparr> sampleWorld
     \<lparr>ro_data = Some (Str []), ro_name = None\<rparr> = ([], Resolved [])"
  using parseRunnerLog_no_data[of "\<lparr>ro_data = Some (Str []), ro_name = None\<rparr>"
      "\<lparr>repo = ''https://github.com/acme/app'', token = None, driver = None\<rparr>" sampleWorld]
  by simp

text \<open>
  C10 as stated fails for data that is an empty \<^verbatim>\<open>Buffer\<close>, which is truthy: without a
  configured driver the call is rejected, and with one the driver's patterns are
  fetched and tested.
\<close>

theorem parseRunnerLog_empty_buffer:
  "parseRunnerLog \<lparr>repo = ''https://github.com/acme/app'', token = None, driver = None\<rparr> sampleWorld
     \<lparr>ro_data = Some (Buf []), ro_name = None\<rparr> = ([], Rejected (newError ''driver not set''))
   \<and> parseRunnerLog sampleCml sampleWorld \<lparr>ro_data = Some (Buf []), ro_name = None\<rparr>
       = ([DrvRunnerLogPatterns], Resolved [])"
  by (simp add: parseRunnerLog_def falsyData_def getDriver_def truthy_def io_simps sampleCml_def
      sampleWorld_def samplePatterns_def GITHUB_def GITLAB_def BB_def dataToString_def test_def
      patternOf_def literalRegex_def io_throw_def io_return_def)


section \<open>The events of a runner log\<close>

lemma parseStatuses_only_started:
  assumes "\<not> test (p_ready ps) data" and "test (p_job_started ps) data"
    and "\<not> test (p_job_ended ps) data"
  shows "parseStatuses c w ps data name [''ready'', ''job_started'', ''job_ended'']
     = io_bind (logEvent c w ps data name ''job_started'') (\<lambda>log. io_return [log])"
  using assms by (simp add: patternOf_def io_bind_return)

lemma logEvent_started_plain:
  assumes "\<not> (truthy name \<and> driver c = Some GITHUB)"
  shows "logEvent c w ps data name ''job_started'' =
     ([], Resolved \<lparr>log_status = ''job_started'', log_date = now w ''job_started'', log_repo = repo c,
                log_job = parseId (p_job ps) data, log_pipeline = parseId (p_pipeline ps) data,
                log_success = None, log_level = ''error''\<rparr>)"
  using assms by (auto simp: logEvent_def io_simps io_return_def)

lemma logEvent_started_github:
  assumes "truthy name" and "driver c = Some GITHUB"
    and "drvRunners w = Inr rs" and "find (\<lambda>r. Some (runner_name r) = name) rs = Some rn"
    and "drvRunnerJob w (runner_id rn) = Inr (Some ji)"
  shows "logEvent c w ps data name ''job_started'' =
     ([DrvRunners, DrvRunnerJob (runner_id rn)],
      Resolved \<lparr>log_status = ''job_started'', log_date = now w ''job_started'', log_repo = repo c,
                log_job = job_id ji, log_pipeline = parseId (p_pipeline ps) data,
                log_success = None, log_level = ''error''\<rparr>)"
proof -
  from assms(1,2) have "getDriver c = Inr GITHUB" by (simp add: getDriver_def truthy_def GITHUB_def)
  with assms show ?thesis
    by (simp add: logEvent_def runnerByName_def runners_def io_simps io_return_def)
qed

lemma sample_tests:
  "\<not> test (p_ready samplePatterns) ''Running job: build''"
  "test (p_job_started samplePatterns) ''Running job: build''"
  "\<not> test (p_job_ended samplePatterns) ''Running job: build''"
  by (simp_all add: samplePatterns_def test_def literalRegex_def)

text \<open>
  C1, as amended.  When the data is truthy, the driver resolves and gives its patterns,
  and of the three status patterns only \<^verbatim>\<open>job_started\<close> matches (and, on GitHub with a
  runner name, the runner and its job are found), \<^verbatim>\<open>parseRunnerLog\<close> resolves to exactly
  one event; its status is \<^verbatim>\<open>job_started\<close>, its \<^verbatim>\<open>success\<close> is undefined and its level is
  \<^verbatim>\<open>error\<close>, since the level is \<^verbatim>\<open>error\<close> unless \<^verbatim>\<open>success\<close> is true.
\<close>

theorem job_started_alone:
  assumes "\<not> falsyData (ro_data opts)"
    and "getDriver c = Inr drv"
    and "drvRunnerLogPatterns w = Inr ps"
    and "\<not> test (p_ready ps) (dataToString (ro_data opts))"
    and "test (p_job_started ps) (dataToString (ro_data opts))"
    and "\<not> test (p_job_ended ps) (dataToString (ro_data opts))"
    and "truthy (ro_name opts) \<and> driver c = Some GITHUB \<longrightarrow>
           (\<exists>rs rn ji. drvRunners w = Inr rs
              \<and> find (\<lambda>r. Some (runner_name r) = ro_name opts) rs = Some rn
              \<and> drvRunnerJob w (runner_id rn) = Inr (Some ji))"
  shows "\<exists>t ev. parseRunnerLog c w opts = (t, Resolved [ev])
           \<and> log_status ev = ''job_started'' \<and> log_success ev = None \<and> log_level ev = ''error''"
proof (cases "truthy (ro_name opts) \<and> driver c = Some GITHUB")
  case True
  with assms(7) obtain rs rn ji where "drvRunners w = Inr rs"
    and "find (\<lambda>r. Some (runner_name r) = ro_name opts) rs = Some rn"
    and "drvRunnerJob w (runner_id rn) = Inr (Some ji)" by blast
  with True have "logEvent c w ps (dataToString (ro_data opts)) (ro_name opts) ''job_started'' =
     ([DrvRunners, DrvRunnerJob (runner_id rn)],
      Resolved \<lparr>log_status = ''job_started'', log_date = now w ''job_started'', log_repo = repo c,
                log_job = job_id ji, log_pipeline = parseId (p_pipeline ps) (dataToString (ro_data opts)),
                log_success = None, log_level = ''error''\<rparr>)"
    by (simp add: logEvent_started_github)
  with assms(1-6) show ?thesis
    by (simp add: parseRunnerLog_def parseStatuses_only_started io_simps io_return_def
        del: parseStatuses.simps)
next
  case False
  then have "logEvent c w ps (dataToString (ro_data opts)) (ro_name opts) ''job_started'' =
     ([], Resolved \<lparr>log_status = ''job_started'', log_date = now w ''job_started'', log_repo = repo c,
                log_job = parseId (p_job ps) (dataToString (ro_data opts)),
                log_pipeline = parseId (p_pipeline ps) (dataToString (ro_data opts)),
                log_success = None, log_level = ''error''\<rparr>)"
    by (rule logEvent_started_plain)
  with assms(1-6) show ?thesis
    by (simp add: parseRunnerLog_def parseStatuses_only_started io_simps io_return_def
        del: parseStatuses.simps)
qed

theorem job_started_alone_witness:
  "\<exists>t ev. parseRunnerLog sampleCml sampleWorld \<lparr>ro_data = Some (Buf ''Running job: build''), ro_name = Some ''runner-1''\<rparr>
              = (t, Resolved [ev])
           \<and> log_status ev = ''job_started'' \<and> log_success ev = None \<and> log_level ev = ''error''"
proof -
  have "getDriver sampleCml = Inr GITLAB"
    by (simp add: getDriver_def sampleCml_def truthy_def GITHUB_def GITLAB_def)
  moreover have "drvRunnerLogPatterns sampleWorld = Inr samplePatterns"
    by (simp add: sampleWorld_def)
  moreover have "driver sampleCml \<noteq> Some GITHUB"
    by (simp add: sampleCml_def GITHUB_def)
  ultimately show ?thesis
    using sample_tests
      job_started_alone[of "\<lparr>ro_data = Some (Buf ''Running job: build''), ro_name = Some ''runner-1''\<rparr>"
        sampleCml GITLAB sampleWorld samplePatterns]
    by (simp add: falsyData_def dataToString_def)
qed

text \<open>
  C1 as stated fails in its last part: the event of a \<^verbatim>\<open>job_started\<close> match alone has
  the level \<^verbatim>\<open>error\<close>.
\<close>

theorem job_started_level_error:
  "parseRunnerLog sampleCml sampleWorld \<lparr>ro_data = Some (Buf ''Running job: build''), ro_name = None\<rparr>
     = ([DrvRunnerLogPatterns],
        Resolved [\<lparr>log_status = ''job_started'', log_date = ''2026-01-01T00:00:00.000Z'',
                   log_repo = ''https://gitlab.com/acme/app'', log_job = None, log_pipeline = None,
                   log_success = None, log_level = ''error''\<rparr>])"
proof -
  have d: "getDriver sampleCml = Inr GITLAB"
    by (simp add: getDriver_def sampleCml_def truthy_def GITHUB_def GITLAB_def)
  have p: "drvRunnerLogPatterns sampleWorld = Inr samplePatterns"
    by (simp add: sampleWorld_def)
  have n: "\<not> (truthy None \<and> driver sampleCml = Some GITHUB)" by (simp add: truthy_def)
  have "now sampleWorld ''job_started'' = ''2026-01-01T00:00:00.000Z''" by (simp add: sampleWorld_def)
  moreover have "repo sampleCml = ''https://gitlab.com/acme/app''" by (simp add: sampleCml_def)
  moreover have "parseId (p_job samplePatterns) x = None" "parseId (p_pipeline samplePatterns) x = None" for x
    by (simp_all add: samplePatterns_def parseId_def)
  ultimately show ?thesis
    using sample_tests d p
    by (simp add: parseRunnerLog_def falsyData_def dataToString_def parseStatuses_only_started
        logEvent_started_plain[OF n] io_simps io_return_def del: parseStatuses.simps)
qed

section \<open>Failures of the MIME detection\<close>

lemma splitOn_first: "(case splitOn c s of [] \<Rightarrow> [] | m # ms \<Rightarrow> m) = takeWhile (\<lambda>x. x \<noteq> c) s"
  by (induction s) (auto split: list.splits)

text \<open>
  C9, as amended.  An error of \<^verbatim>\<open>getInstance\<close>, of \<^verbatim>\<open>writeFile\<close> (when a buffer is given) or
  of \<^verbatim>\<open>detect\<close> ends \<^verbatim>\<open>mimeType\<close>: the function is rejected with that very error, and the
  steps after the failed one are not taken.  It puts no type of its own in the place of
  a failed detection: when the three succeed and \<^verbatim>\<open>detect\<close> answers with a non-empty
  string, it resolves to the text before the first semicolon of that answer.
\<close>

theorem mimeType_outcome:
  "(getInstance w = Inl e \<longrightarrow>
      mimeType w opts = ([FsExists (magicFile w), MagicGetInstance], Rejected e))
   \<and> (getInstance w = Inr () \<and> po_buffer opts \<noteq> None \<and> writeFile w (tempyFile w) = Inl e \<longrightarrow>
      mimeType w opts
        = ([FsExists (magicFile w), MagicGetInstance, FsWriteFile (tempyFile w)], Rejected e))
   \<and> (getInstance w = Inr () \<and> (po_buffer opts \<noteq> None \<longrightarrow> writeFile w (tempyFile w) = Inr ())
        \<and> detect w (sniffTarget w opts) = Inl e \<longrightarrow>
      mimeType w opts = (sniffTrace w opts, Rejected e))
   \<and> (getInstance w = Inr () \<and> (po_buffer opts \<noteq> None \<longrightarrow> writeFile w (tempyFile w) = Inr ())
        \<and> detect w (sniffTarget w opts) = Inr (Some s) \<and> s \<noteq> [] \<longrightarrow>
      mimeType w opts = (sniffTrace w opts, Resolved (takeWhile (\<lambda>x. x \<noteq> CHR '';'') s)))"
proof (intro conjI impI)
  assume "getInstance w = Inl e"
  then show "mimeType w opts = ([FsExists (magicFile w), MagicGetInstance], Rejected e)"
    by (simp add: mimeType_def io_simps)
next
  assume a: "getInstance w = Inr () \<and> po_buffer opts \<noteq> None \<and> writeFile w (tempyFile w) = Inl e"
  then obtain b where "po_buffer opts = Some b" by auto
  with a show "mimeType w opts
        = ([FsExists (magicFile w), MagicGetInstance, FsWriteFile (tempyFile w)], Rejected e)"
    by (simp add: mimeType_def io_simps)
next
  assume a: "getInstance w = Inr () \<and> (po_buffer opts \<noteq> None \<longrightarrow> writeFile w (tempyFile w) = Inr ())
        \<and> detect w (sniffTarget w opts) = Inl e"
  show "mimeType w opts = (sniffTrace w opts, Rejected e)"
  proof (cases "po_buffer opts")
    case None
    with a show ?thesis
      by (simp add: mimeType_def sniffTrace_def sniffTarget_def io_simps)
  next
    case (Some b)
    with a show ?thesis
      by (simp add: mimeType_def sniffTrace_def sniffTarget_def io_simps)
  qed
next
  assume a: "getInstance w = Inr () \<and> (po_buffer opts \<noteq> None \<longrightarrow> writeFile w (tempyFile w) = Inr ())
        \<and> detect w (sniffTarget w opts) = Inr (Some s) \<and> s \<noteq> []"
  show "mimeType w opts = (sniffTrace w opts, Resolved (takeWhile (\<lambda>x. x \<noteq> CHR '';'') s))"
  proof (cases "po_buffer opts")
    case None
    with a show ?thesis
      by (simp add: mimeType_def sniffTrace_def sniffTarget_def io_simps truthy_def toStr_def
          splitOn_first io_return_def)
  next
    case (Some b)
    with a show ?thesis
      by (simp add: mimeType_def sniffTrace_def sniffTarget_def io_simps truthy_def toStr_def
          splitOn_first io_return_def)
  qed
qed

theorem mimeType_outcome_witness:
  "snd (mimeType (sampleWorld\<lparr>getInstance := Inl eacces\<rparr>)
          (samplePublishOpts\<lparr>po_path := Some ''plot.png''\<rparr>)) = Rejected eacces
   \<and> snd (mimeType (sampleWorld\<lparr>writeFile := (\<lambda>p. Inl eacces)\<rparr>)
          (samplePublishOpts\<lparr>po_buffer := Some ''abc''\<rparr>)) = Rejected eacces
   \<and> snd (mimeType (sampleWorld\<lparr>detect := (\<lambda>p. Inl (enoent ''plot.png''))\<rparr>)
          (samplePublishOpts\<lparr>po_path := Some ''plot.png''\<rparr>)) = Rejected (enoent ''plot.png'')
   \<and> mimeType sampleWorld (samplePublishOpts\<lparr>po_path := Some ''plot.png''\<rparr>)
        = ([FsExists ''/cml/assets/magic.mgc'', MagicGetInstance, MagicDetect (Some ''plot.png'')],
           Resolved ''image/png'')"
proof (intro conjI)
  show "snd (mimeType (sampleWorld\<lparr>getInstance := Inl eacces\<rparr>)
          (samplePublishOpts\<lparr>po_path := Some ''plot.png''\<rparr>)) = Rejected eacces"
    using mimeType_outcome[of "sampleWorld\<lparr>getInstance := Inl eacces\<rparr>" eacces
        "samplePublishOpts\<lparr>po_path := Some ''plot.png''\<rparr>" "[]"]
    by simp
  show "snd (mimeType (sampleWorld\<lparr>writeFile := (\<lambda>p. Inl eacces)\<rparr>)
          (samplePublishOpts\<lparr>po_buffer := Some ''abc''\<rparr>)) = Rejected eacces"
    using mimeType_outcome[of "sampleWorld\<lparr>writeFile := (\<lambda>p. Inl eacces)\<rparr>" eacces
        "samplePublishOpts\<lparr>po_buffer := Some ''abc''\<rparr>" "[]"]
    by (simp add: sampleWorld_def)
  show "snd (mimeType (sampleWorld\<lparr>detect := (\<lambda>p. Inl (enoent ''plot.png''))\<rparr>)
          (samplePublishOpts\<lparr>po_path := Some ''plot.png''\<rparr>)) = Rejected (enoent ''plot.png'')"
    using mimeType_outcome[of "sampleWorld\<lparr>detect := (\<lambda>p. Inl (enoent ''plot.png''))\<rparr>"
        "enoent ''plot.png''" "samplePublishOpts\<lparr>po_path := Some ''plot.png''\<rparr>" "[]"]
    by (simp add: sampleWorld_def samplePublishOpts_def)
  show "mimeType sampleWorld (samplePublishOpts\<lparr>po_path := Some ''plot.png''\<rparr>)
        = ([FsExists ''/cml/assets/magic.mgc'', MagicGetInstance, MagicDetect (Some ''plot.png'')],
           Resolved ''image/png'')"
    using mimeType_outcome[of sampleWorld eacces "samplePublishOpts\<lparr>po_path := Some ''plot.png''\<rparr>"
        "''image/png; charset=binary''"]
    by (simp add: sampleWorld_def samplePublishOpts_def sniffTrace_def sniffTarget_def)
qed

text \<open>
  C9 as stated fails: the error that reaches the caller is not a typed "sniff failed"
  error.  An error thrown by \<^verbatim>\<open>detect\<close>, here for a path that does not exist, arrives as
  it is.
\<close>

theorem mimeType_untyped_errors:
  "mimeType (sampleWorld\<lparr>detect := (\<lambda>p. Inl (enoent ''plot.png''))\<rparr>) (samplePublishOpts\<lparr>po_path := Some ''plot.png''\<rparr>)
     = ([FsExists ''/cml/assets/magic.mgc'', MagicGetInstance, MagicDetect (Some ''plot.png'')],
        Rejected (enoent ''plot.png''))
   \<and> \<not> sniffFailed (enoent ''plot.png'')"
proof (intro conjI)
  show "mimeType (sampleWorld\<lparr>detect := (\<lambda>p. Inl (enoent ''plot.png''))\<rparr>) (samplePublishOpts\<lparr>po_path := Some ''plot.png''\<rparr>)
     = ([FsExists ''/cml/assets/magic.mgc'', MagicGetInstance, MagicDetect (Some ''plot.png'')],
        Rejected (enoent ''plot.png''))"
    by (simp add: mimeType_def sampleWorld_def samplePublishOpts_def io_simps)
  show "\<not> sniffFailed (enoent ''plot.png'')"
    by (simp add: sniffFailed_def enoent_def)
qed


section \<open>The lock of the watch handler\<close>

lemma watchStep_counts:
  "inflight s = (if lock s then 1 else 0) \<Longrightarrow>
   inflight (watchStep u s e) = (if lock (watchStep u s e) then 1 else 0)"
  by (cases e) (simp_all add: handlerEnter_def handlerExit_def)

lemma watchRun_counts:
  "inflight s = (if lock s then 1 else 0) \<Longrightarrow>
   inflight (watchRun u s es) = (if lock (watchRun u s es) then 1 else 0)"
  unfolding watchRun_def
  by (induction es arbitrary: s) (simp_all add: watchStep_counts)

lemma watchRun_append: "watchRun u s (es @ fs) = watchRun u (watchRun u s es) fs"
  by (simp add: watchRun_def)

lemma burst_dropped: "lock s \<Longrightarrow> watchRun u s (map (\<lambda>(event, path). FsEvent event path) burst) = s"
  unfolding watchRun_def
  by (induction burst) (auto simp: handlerEnter_def)

text \<open>
  C3.  In every state that the watch loop reaches, at most one cycle is running, and
  one is running exactly when the lock is held.  While the lock is held, a burst of
  file system events of any length leaves the state as it is: none of them starts a
  cycle and none is queued.  When the running cycle has ended, no cycle is started
  for the burst, and the next event starts exactly one, with \<^verbatim>\<open>update\<close> forced to true.
\<close>

theorem one_cycle_in_flight:
  assumes "s = watchRun u watchInit es"
  shows "inflight s \<le> 1 \<and> (lock s \<longleftrightarrow> inflight s = 1)
     \<and> (lock s \<longrightarrow>
          watchRun u s (map (\<lambda>(event, path). FsEvent event path) burst) = s
          \<and> started (watchRun u s (map (\<lambda>(event, path). FsEvent event path) burst @ [CycleSettled])) = started s
          \<and> inflight (watchRun u s (map (\<lambda>(event, path). FsEvent event path) burst @ [CycleSettled])) = 0
          \<and> started (watchRun u s (map (\<lambda>(event, path). FsEvent event path) burst
                                      @ [CycleSettled, FsEvent event path]))
              = started s @ [True])"
proof -
  let ?burst = "map (\<lambda>(event, path). FsEvent event path) burst"
  have "inflight watchInit = (if lock watchInit then 1 else 0)" by (simp add: watchInit_def)
  then have c: "inflight s = (if lock s then 1 else 0)"
    unfolding assms by (rule watchRun_counts)
  then have 1: "inflight s \<le> 1 \<and> (lock s \<longleftrightarrow> inflight s = 1)" by simp
  have 2: "watchRun u s ?burst = s
      \<and> started (watchRun u s (?burst @ [CycleSettled])) = started s
      \<and> inflight (watchRun u s (?burst @ [CycleSettled])) = 0
      \<and> started (watchRun u s (?burst @ [CycleSettled, FsEvent event path])) = started s @ [True]"
    if l: "lock s"
  proof -
    from l have b: "watchRun u s ?burst = s" by (rule burst_dropped)
    from l c have i: "inflight s = 1" by simp
    have "watchRun u s (?burst @ fs) = watchRun u s fs" for fs
      by (simp only: watchRun_append b)
    moreover from i have "started (watchRun u s [CycleSettled]) = started s"
      and "inflight (watchRun u s [CycleSettled]) = 0"
      and "started (watchRun u s [CycleSettled, FsEvent event path]) = started s @ [True]"
      by (simp_all add: watchRun_def handlerExit_def handlerEnter_def)
    ultimately show ?thesis using b by simp
  qed
  from 1 2 show ?thesis by blast
qed

theorem one_cycle_in_flight_witness:
  "lock (watchRun False watchInit [FsEvent ''change'' ''report.md''])
   \<and> started (watchRun False (watchRun False watchInit [FsEvent ''change'' ''report.md''])
       (map (\<lambda>(event, path). FsEvent event path)
          [(''change'', ''report.md''), (''change'', ''report.md''), (''add'', ''plot.png'')] @ [CycleSettled]))
      = [False]
   \<and> started (watchRun False (watchRun False watchInit [FsEvent ''change'' ''report.md''])
       (map (\<lambda>(event, path). FsEvent event path)
          [(''change'', ''report.md''), (''change'', ''report.md''), (''add'', ''plot.png'')]
        @ [CycleSettled, FsEvent ''change'' ''report.md'']))
      = [False, True]"
proof -
  have l: "lock (watchRun False watchInit [FsEvent ''change'' ''report.md''])"
    by (simp add: watchRun_def watchInit_def handlerEnter_def)
  have s: "started (watchRun False watchInit [FsEvent ''change'' ''report.md'']) = [False]"
    by (simp add: watchRun_def watchInit_def handlerEnter_def)
  show ?thesis
    using l s one_cycle_in_flight[OF refl, of False "[FsEvent ''change'' ''report.md'']"
        "[(''change'', ''report.md''), (''change'', ''report.md''), (''add'', ''plot.png'')]"
        "''change''" "''report.md''"]
    by simp
qed


section \<open>Publishing the local files of a report\<close>

lemma io_catch_Resolved: "io_catch (t, Resolved x) h = (t, Resolved x)"
  by (simp add: io_catch_def)

lemma io_catch_Rejected: "io_catch (t, Rejected e) h = (t @ fst (h e), snd (h e))"
  by (simp add: io_catch_def split: prod.splits)

lemma io_catch_Forever: "io_catch (t, Forever) h = (t, Forever)"
  by (simp add: io_catch_def)

lemma snd_io_bind:
  "snd (io_bind m f) =
     (case snd m of Rejected e \<Rightarrow> Rejected e | Forever \<Rightarrow> Forever | Resolved x \<Rightarrow> snd (f x))"
  by (cases m; cases "snd m") (auto simp: io_simps)

lemma snd_io_catch:
  "snd (io_catch m h) =
     (case snd m of Rejected e \<Rightarrow> snd (h e) | Forever \<Rightarrow> Forever | Resolved x \<Rightarrow> Resolved x)"
  by (cases m; cases "snd m") (auto simp: io_catch_Resolved io_catch_Rejected io_catch_Forever)

lemma promiseAll_Rejected:
  "\<exists>m\<in>set ms. \<exists>e. snd m = Rejected e \<Longrightarrow> \<exists>e. snd (promiseAll ms) = Rejected e"
proof (induction ms)
  case Nil
  then show ?case by simp
next
  case (Cons m ms)
  show ?case
  proof (cases "\<exists>e. snd m = Rejected e")
    case True
    then show ?thesis by (auto split: prod.splits)
  next
    case False
    with Cons.prems have "\<exists>m\<in>set ms. \<exists>e. snd m = Rejected e" by auto
    with Cons.IH obtain e where "snd (promiseAll ms) = Rejected e" by blast
    then show ?thesis by (cases "snd m") (auto split: prod.splits)
  qed
qed

lemma promiseAll_Resolved:
  "\<forall>m\<in>set ms. \<exists>x. snd m = Resolved x \<Longrightarrow>
   \<exists>xs. snd (promiseAll ms) = Resolved xs \<and> list_all2 (\<lambda>m x. snd m = Resolved x) ms xs"
proof (induction ms)
  case Nil
  then show ?case by simp
next
  case (Cons m ms)
  then obtain x where x: "snd m = Resolved x" by auto
  from Cons obtain xs where "snd (promiseAll ms) = Resolved xs"
    and "list_all2 (\<lambda>m x. snd m = Resolved x) ms xs" by auto
  with x show ?case by (auto split: prod.splits)
qed

lemma visitor_outcome:
  assumes "truthy (nurl node)" and "\<not> isWatermark node"
    and "resolveFrom w (co_markdownFile opts) (toStr (nurl node)) = Inr p"
  shows "snd (visitor c w opts node) =
     (case snd (publish c w ((co_rest opts)\<lparr>po_path := Some p, po_rmWatermark := co_rmWatermark opts\<rparr>)) of
        Rejected e \<Rightarrow> if ecode e \<noteq> Some ''ENOENT'' then Rejected e else Resolved node
      | Resolved uri \<Rightarrow> Resolved (setUrl (Some uri) node)
      | Forever \<Rightarrow> Forever)"
  using assms
  by (simp add: visitor_def snd_io_bind snd_io_catch io_simps io_throw_def io_return_def
      split: outcome.splits)

text \<open>The positions that \<^verbatim>\<open>visit\<close> collects are positions of the tree.\<close>

lemma visitAll_nodeAt:
  "(q, node) \<in> set (visitAll p cs offset n) \<Longrightarrow>
   \<exists>i r. q = p @ i # r \<and> i < length cs \<and> nodeAt (cs ! i) r = Some node"
proof (induction p cs offset n rule: visitAll.induct)
  case (1 p cs offset n)
  show ?case
  proof (cases "offset < length cs")
    case False
    with "1.prems" show ?thesis by (simp add: visitAll.simps[of p cs offset n])
  next
    case True
    define c where "c = cs ! offset"
    define pushed where "pushed = (if visited c then n + 1 else n)"
    define below where "below = visitAll (p @ [offset]) (children c) 0 pushed"
    from True have eq: "visitAll p cs offset n = (if visited c then [(p @ [offset], c)] else []) @ below
        @ visitAll p cs (if visited c then pushed else offset + 1) (pushed + length below)"
      by (subst visitAll.simps) (simp add: c_def pushed_def below_def Let_def)
    from "1.prems" have "(q, node) \<in> set ((if visited c then [(p @ [offset], c)] else []) @ below
        @ visitAll p cs (if visited c then pushed else offset + 1) (pushed + length below))"
      unfolding eq .
    then consider "q = p @ [offset]" and "node = c"
      | "(q, node) \<in> set below"
      | "(q, node) \<in> set (visitAll p cs (if visited c then pushed else offset + 1) (pushed + length below))"
      by (auto split: if_splits)
    then show ?thesis
    proof cases
      case 1
      with True show ?thesis by (auto simp: c_def)
    next
      case 2
      from "1.IH"(1)[OF True c_def pushed_def] 2
      obtain i r where "q = (p @ [offset]) @ i # r" and "i < length (children c)"
        and "nodeAt (children c ! i) r = Some node"
        by (auto simp: below_def)
      with True have "q = p @ offset # (i # r) \<and> offset < length cs \<and> nodeAt (cs ! offset) (i # r) = Some node"
        by (simp add: c_def)
      then show ?thesis by blast
    next
      case 3
      from "1.IH"(2)[OF True c_def pushed_def below_def] 3 show ?thesis by simp
    qed
  qed
qed

lemma visit_nodeAt: "(q, node) \<in> set (visit tree) \<Longrightarrow> nodeAt tree q = Some node"
proof -
  assume "(q, node) \<in> set (visit tree)"
  then consider "q = []" and "node = tree"
    | "(q, node) \<in> set (visitAll [] (children tree) 0 (if visited tree then 1 else 0))"
    by (auto simp: visit_def split: if_splits)
  then show ?thesis
  proof cases
    case 1
    then show ?thesis by simp
  next
    case 2
    then obtain i r where "q = i # r" and "i < length (children tree)"
      and "nodeAt (children tree ! i) r = Some node"
      by (auto dest: visitAll_nodeAt)
    then show ?thesis by simp
  qed
qed

text \<open>The nodes of the tree after the assignments.\<close>

lemma assignedAll_length: "length (assignedAll g p i cs) = length cs"
  by (induction cs arbitrary: i) simp_all

lemma assignedAll_nth:
  "j < length cs \<Longrightarrow> assignedAll g p i cs ! j = assigned g (p @ [i + j]) (cs ! j)"
proof (induction cs arbitrary: i j)
  case Nil
  then show ?case by simp
next
  case (Cons c cs)
  show ?case
  proof (cases j)
    case 0
    then show ?thesis by simp
  next
    case (Suc k)
    with Cons.prems have "k < length cs" by simp
    from Cons.IH[OF this, of "Suc i"] Suc show ?thesis by simp
  qed
qed

lemma children_assigned: "children (assigned g p node) = assignedAll g p 0 (children node)"
  by (cases node) simp

lemma nurl_assigned: "nurl (assigned g p node) = g p node"
  by (cases node) simp

lemma nodeAt_assigned:
  "nodeAt (assigned g p tree) q = map_option (assigned g (p @ q)) (nodeAt tree q)"
proof (induction q arbitrary: p tree)
  case Nil
  then show ?case by simp
next
  case (Cons i q)
  show ?case
  proof (cases "i < length (children tree)")
    case True
    then have "nodeAt (assigned g p tree) (i # q) = nodeAt (assigned g (p @ [i]) (children tree ! i)) q"
      by (simp add: children_assigned assignedAll_length assignedAll_nth)
    also have "\<dots> = map_option (assigned g ((p @ [i]) @ q)) (nodeAt (children tree ! i) q)"
      by (rule Cons.IH)
    finally show ?thesis using True by simp
  next
    case False
    then show ?thesis by (simp add: children_assigned assignedAll_length)
  qed
qed

lemma publishLocalFiles_Rejected:
  assumes "(q, node) \<in> set (visit tree)" and "snd (visitor c w opts node) = Rejected e"
  shows "\<exists>e'. snd (publishLocalFiles c w opts tree) = Rejected e'"
proof -
  from assms have "\<exists>m\<in>set (map (\<lambda>(p, node). visitor c w opts node) (visit tree)).
      \<exists>e. snd m = Rejected e" by force
  then obtain e' where "snd (promiseAll (map (\<lambda>(p, node). visitor c w opts node) (visit tree))) = Rejected e'"
    using promiseAll_Rejected by blast
  then show ?thesis by (simp add: publishLocalFiles_def Let_def snd_io_bind)
qed

lemma publishLocalFiles_Resolved:
  assumes "\<forall>(q, n)\<in>set (visit tree). \<exists>n'. snd (visitor c w opts n) = Resolved n'"
  shows "snd (publishLocalFiles c w opts tree) =
     Resolved (assigned (\<lambda>p node. if p \<in> set (map fst (visit tree)) then urlAfter c w opts node
                                    else nurl node) [] tree)"
proof -
  from assms have "\<forall>m\<in>set (map (\<lambda>(p, node). visitor c w opts node) (visit tree)).
      \<exists>x. snd m = Resolved x" by auto
  then obtain xs where "snd (promiseAll (map (\<lambda>(p, node). visitor c w opts node) (visit tree))) = Resolved xs"
    using promiseAll_Resolved by blast
  then show ?thesis by (simp add: publishLocalFiles_def Let_def snd_io_bind io_return_def)
qed

lemma commentCreate_publish_Rejected:
  assumes "getDriver c = Inr drv" and "\<not> (co_rmWatermark opts \<and> co_update opts)"
    and "userReport w opts = (t, Resolved user)" and "co_publish opts"
    and "snd (publishLocalFiles c w opts (mdParse w (rawReport user (watermarkOf w opts)))) = Rejected e"
  shows "snd (commentCreate c w opts) = Rejected e"
  using assms
  by (auto simp add: commentCreate_def composeReport_def snd_io_bind io_simps)

lemma getDriver_sample: "getDriver sampleCml = Inr GITLAB"
  by (simp add: getDriver_def sampleCml_def truthy_def GITHUB_def GITLAB_def)

lemma publish_stat_fails:
  assumes "stat w p = Inl e" and "p \<noteq> []" and "\<not> po_native opts"
  shows "snd (publish c w (opts\<lparr>po_path := Some p, po_rmWatermark := r\<rparr>)) = Rejected e"
  using assms
  by (simp add: publish_def upload_def fetchUploadData_def snd_io_bind io_simps truthy_def toStr_def
      Let_def)

text \<open>
  The walk of a report of four images and the watermark.  The first image is the first
  node collected, so the walk of its paragraph goes on at the child of index 1.  The
  second image, the child of index 2, is the second node collected, so the walk goes on
  at that same child and collects it again.  The third image is the first child of its
  paragraph and the fourth node collected: the walk of that paragraph goes on at the
  index 4 and ends, and the fourth image is never collected.
\<close>

lemma visit_fourImages:
  "map fst (visit fourImages) = [[0, 0], [0, 2], [0, 2], [1, 0], [2, 0]]"
  by code_simp

text \<open>
  A node that the walk skips has no visitor, so nothing is uploaded for it.  Here the
  file of the fourth image cannot be read; the report is published and the comment
  created, with the fourth image as it was.
\<close>

lemma skipped_image_not_uploaded:
  "snd (commentCreate sampleCml skipWorld (sampleCommentOpts\<lparr>co_publish := True\<rparr>)) = Resolved ''created''
   \<and> FsStat ''/work/d.png'' \<notin> set (fst (commentCreate sampleCml skipWorld (sampleCommentOpts\<lparr>co_publish := True\<rparr>)))"
  by code_simp

text \<open>
  C6.  Take a node of the tree, at some position, whose upload is rejected.  When the
  error is a not-found error (\<^verbatim>\<open>ENOENT\<close>), the visitor resolves and leaves the node as it
  was; when moreover the visitor of every node that \<^verbatim>\<open>visit\<close> collects resolves, so does
  \<^verbatim>\<open>publishLocalFiles\<close>, and the node at that position of the tree has the \<^verbatim>\<open>url\<close> it
  had.  When the error is any other, the visitor is rejected with it; and when \<^verbatim>\<open>visit\<close>
  collects the node, so that its visitor runs, \<^verbatim>\<open>publishLocalFiles\<close> is rejected, and so
  is the \<^verbatim>\<open>commentCreate\<close> that called it.
\<close>

theorem missing_file_tolerated:
  assumes "nodeAt tree q = Some node" and "truthy (nurl node)" and "\<not> isWatermark node"
    and "resolveFrom w (co_markdownFile opts) (toStr (nurl node)) = Inr p"
    and "snd (publish c w ((co_rest opts)\<lparr>po_path := Some p, po_rmWatermark := co_rmWatermark opts\<rparr>))
           = Rejected e"
  shows "(ecode e = Some ''ENOENT'' \<longrightarrow>
            snd (visitor c w opts node) = Resolved node
          \<and> ((\<forall>(q', n)\<in>set (visit tree). \<exists>n'. snd (visitor c w opts n) = Resolved n') \<longrightarrow>
               (\<exists>tree'. snd (publishLocalFiles c w opts tree) = Resolved tree'
                  \<and> map_option nurl (nodeAt tree' q) = Some (nurl node))))
       \<and> (ecode e \<noteq> Some ''ENOENT'' \<longrightarrow>
            snd (visitor c w opts node) = Rejected e
          \<and> ((q, node) \<in> set (visit tree) \<longrightarrow>
               (\<exists>e'. snd (publishLocalFiles c w opts tree) = Rejected e')
             \<and> (getDriver c = Inr drv \<and> \<not> (co_rmWatermark opts \<and> co_update opts)
                  \<and> userReport w opts = (t, Resolved user) \<and> co_publish opts
                  \<and> tree = mdParse w (rawReport user (watermarkOf w opts)) \<longrightarrow>
                  (\<exists>e'. snd (commentCreate c w opts) = Rejected e'))))"
proof (intro conjI impI)
  assume ne: "ecode e = Some ''ENOENT''"
  with assms(2-5) show v: "snd (visitor c w opts node) = Resolved node"
    by (simp add: visitor_outcome)
  assume "\<forall>(q', n)\<in>set (visit tree). \<exists>n'. snd (visitor c w opts n) = Resolved n'"
  then have r: "snd (publishLocalFiles c w opts tree) =
     Resolved (assigned (\<lambda>p node. if p \<in> set (map fst (visit tree)) then urlAfter c w opts node
                                    else nurl node) [] tree)"
    by (rule publishLocalFiles_Resolved)
  from v have "urlAfter c w opts node = nurl node" by (simp add: urlAfter_def)
  with assms(1) have "map_option nurl (nodeAt (assigned (\<lambda>p node. if p \<in> set (map fst (visit tree))
        then urlAfter c w opts node else nurl node) [] tree) q) = Some (nurl node)"
    by (simp add: nodeAt_assigned nurl_assigned)
  with r show "\<exists>tree'. snd (publishLocalFiles c w opts tree) = Resolved tree'
      \<and> map_option nurl (nodeAt tree' q) = Some (nurl node)"
    by blast
next
  assume "ecode e \<noteq> Some ''ENOENT''"
  with assms(2-5) show v: "snd (visitor c w opts node) = Rejected e"
    by (simp add: visitor_outcome)
  assume "(q, node) \<in> set (visit tree)"
  from this v show p: "\<exists>e'. snd (publishLocalFiles c w opts tree) = Rejected e'"
    by (rule publishLocalFiles_Rejected)
  assume "getDriver c = Inr drv \<and> \<not> (co_rmWatermark opts \<and> co_update opts)
       \<and> userReport w opts = (t, Resolved user) \<and> co_publish opts
       \<and> tree = mdParse w (rawReport user (watermarkOf w opts))"
  with p show "\<exists>e'. snd (commentCreate c w opts) = Rejected e'"
    by (auto dest: commentCreate_publish_Rejected)
qed

theorem missing_file_tolerated_witness:
  "snd (visitor sampleCml (sampleWorld\<lparr>stat := (\<lambda>p. Inl (enoent p)), mdParse := (\<lambda>text. sampleTree)\<rparr>)
          (sampleCommentOpts\<lparr>co_publish := True\<rparr>) sampleImage) = Resolved sampleImage
   \<and> (\<exists>tree'. snd (publishLocalFiles sampleCml
                      (sampleWorld\<lparr>stat := (\<lambda>p. Inl (enoent p)), mdParse := (\<lambda>text. sampleTree)\<rparr>)
                      (sampleCommentOpts\<lparr>co_publish := True\<rparr>) sampleTree) = Resolved tree'
         \<and> map_option nurl (nodeAt tree' [0, 0]) = Some (Some ''plot.png''))
   \<and> snd (visitor sampleCml (sampleWorld\<lparr>stat := (\<lambda>p. Inl eacces), mdParse := (\<lambda>text. sampleTree)\<rparr>)
          (sampleCommentOpts\<lparr>co_publish := True\<rparr>) sampleImage) = Rejected eacces
   \<and> (\<exists>e'. snd (commentCreate sampleCml
                  (sampleWorld\<lparr>stat := (\<lambda>p. Inl eacces), mdParse := (\<lambda>text. sampleTree)\<rparr>)
                  (sampleCommentOpts\<lparr>co_publish := True\<rparr>)) = Rejected e')"
proof -
  let ?W1 = "sampleWorld\<lparr>stat := (\<lambda>p. Inl (enoent p)), mdParse := (\<lambda>text. sampleTree)\<rparr>"
  let ?W2 = "sampleWorld\<lparr>stat := (\<lambda>p. Inl eacces), mdParse := (\<lambda>text. sampleTree)\<rparr>"
  let ?O = "sampleCommentOpts\<lparr>co_publish := True\<rparr>"
  have vs: "visit sampleTree = [([0, 0], sampleImage)]"
    by code_simp
  have n: "nodeAt sampleTree [0, 0] = Some sampleImage" "truthy (nurl sampleImage)"
    "\<not> isWatermark sampleImage"
    by (simp_all add: sampleTree_def sampleImage_def truthy_def isWatermark_def)
  have r1: "resolveFrom ?W1 (co_markdownFile ?O) (toStr (nurl sampleImage)) = Inr ''/work/plot.png''"
    and r2: "resolveFrom ?W2 (co_markdownFile ?O) (toStr (nurl sampleImage)) = Inr ''/work/plot.png''"
    by (simp_all add: sampleWorld_def sampleCommentOpts_def sampleImage_def toStr_def)
  have nat: "\<not> po_native (co_rest ?O)"
    by (simp add: sampleCommentOpts_def samplePublishOpts_def)
  have p1: "snd (publish sampleCml ?W1 ((co_rest ?O)\<lparr>po_path := Some ''/work/plot.png'',
                po_rmWatermark := co_rmWatermark ?O\<rparr>)) = Rejected (enoent ''/work/plot.png'')"
    by (rule publish_stat_fails[OF _ _ nat]) simp_all
  have p2: "snd (publish sampleCml ?W2 ((co_rest ?O)\<lparr>po_path := Some ''/work/plot.png'',
                po_rmWatermark := co_rmWatermark ?O\<rparr>)) = Rejected eacces"
    by (rule publish_stat_fails[OF _ _ nat]) simp_all
  have c: "ecode (enoent ''/work/plot.png'') = Some ''ENOENT''" "ecode eacces \<noteq> Some ''ENOENT''"
    by (simp_all add: enoent_def eacces_def)
  have u: "userReport ?W2 ?O = ([FsReadFile (Some ''report.md'')], Resolved (Some ''# Report''))"
    by (simp add: userReport_def sampleWorld_def sampleCommentOpts_def truthy_def io_simps
        io_catch_Resolved io_return_def)
  have f: "\<not> (co_rmWatermark ?O \<and> co_update ?O)" "co_publish ?O"
    "sampleTree = mdParse ?W2 (rawReport (Some ''# Report'') (watermarkOf ?W2 ?O))"
    by (simp_all add: sampleCommentOpts_def)
  from missing_file_tolerated[OF n r1 p1, of GITLAB "[]" None] c(1)
  have a: "snd (visitor sampleCml ?W1 ?O sampleImage) = Resolved sampleImage"
    and b: "(\<forall>(q', n)\<in>set (visit sampleTree). \<exists>n'. snd (visitor sampleCml ?W1 ?O n) = Resolved n') \<longrightarrow>
               (\<exists>tree'. snd (publishLocalFiles sampleCml ?W1 ?O sampleTree) = Resolved tree'
                  \<and> map_option nurl (nodeAt tree' [0, 0]) = Some (nurl sampleImage))"
    by blast+
  from a b have b': "\<exists>tree'. snd (publishLocalFiles sampleCml ?W1 ?O sampleTree) = Resolved tree'
         \<and> map_option nurl (nodeAt tree' [0, 0]) = Some (Some ''plot.png'')"
    by (simp add: vs sampleImage_def)
  have m: "([0, 0], sampleImage) \<in> set (visit sampleTree)" by (simp add: vs)
  from missing_file_tolerated[OF n r2 p2, of GITLAB "[FsReadFile (Some ''report.md'')]" "Some ''# Report''"]
    c(2) getDriver_sample u f m
  have d: "snd (visitor sampleCml ?W2 ?O sampleImage) = Rejected eacces"
    and e: "\<exists>e'. snd (commentCreate sampleCml ?W2 ?O) = Rejected e'"
    by blast+
  from a b' d e show ?thesis by blast
qed


section \<open>Updating or creating the comment\<close>

lemma find_rev_Some:
  "find P (rev xs) = Some x \<longleftrightarrow> (\<exists>b a. xs = b @ x # a \<and> P x \<and> (\<forall>y\<in>set a. \<not> P y))"
proof (induction xs rule: rev_induct)
  case Nil
  then show ?case by simp
next
  case (snoc y ys)
  show ?case
  proof (cases "P y")
    case True
    have "(\<exists>b a. ys @ [y] = b @ x # a \<and> P x \<and> (\<forall>z\<in>set a. \<not> P z)) \<longleftrightarrow> x = y"
    proof
      assume "\<exists>b a. ys @ [y] = b @ x # a \<and> P x \<and> (\<forall>z\<in>set a. \<not> P z)"
      then obtain b a where e: "ys @ [y] = b @ x # a" and n: "\<forall>z\<in>set a. \<not> P z" by blast
      show "x = y"
      proof (cases a rule: rev_cases)
        case Nil
        with e show ?thesis by simp
      next
        case (snoc a' z)
        with e have "ys @ [y] = (b @ x # a') @ [z]" by simp
        then have "z = y" by (simp only: append1_eq_conv)
        with n snoc True show ?thesis by simp
      qed
    next
      assume "x = y"
      with True have "ys @ [y] = ys @ x # [] \<and> P x \<and> (\<forall>z\<in>set []. \<not> P z)" by simp
      then show "\<exists>b a. ys @ [y] = b @ x # a \<and> P x \<and> (\<forall>z\<in>set a. \<not> P z)" by blast
    qed
    with True show ?thesis by auto
  next
    case False
    have "(\<exists>b a. ys @ [y] = b @ x # a \<and> P x \<and> (\<forall>z\<in>set a. \<not> P z))
        \<longleftrightarrow> (\<exists>b a. ys = b @ x # a \<and> P x \<and> (\<forall>z\<in>set a. \<not> P z))"
    proof
      assume "\<exists>b a. ys @ [y] = b @ x # a \<and> P x \<and> (\<forall>z\<in>set a. \<not> P z)"
      then obtain b a where e: "ys @ [y] = b @ x # a" and px: "P x" and n: "\<forall>z\<in>set a. \<not> P z"
        by blast
      show "\<exists>b a. ys = b @ x # a \<and> P x \<and> (\<forall>z\<in>set a. \<not> P z)"
      proof (cases a rule: rev_cases)
        case Nil
        with e have "x = y" by simp
        with px False show ?thesis by simp
      next
        case (snoc a' z)
        with e have "ys @ [y] = (b @ x # a') @ [z]" by simp
        then have "ys = b @ x # a'" by (simp only: append1_eq_conv)
        moreover from n snoc have "\<forall>z\<in>set a'. \<not> P z" by simp
        ultimately show ?thesis using px by blast
      qed
    next
      assume "\<exists>b a. ys = b @ x # a \<and> P x \<and> (\<forall>z\<in>set a. \<not> P z)"
      then obtain b a where "ys = b @ x # a" and "P x" and "\<forall>z\<in>set a. \<not> P z" by blast
      with False have "ys @ [y] = b @ x # (a @ [y]) \<and> P x \<and> (\<forall>z\<in>set (a @ [y]). \<not> P z)"
        by simp
      then show "\<exists>b a. ys @ [y] = b @ x # a \<and> P x \<and> (\<forall>z\<in>set a. \<not> P z)" by blast
    qed
    with False snoc.IH show ?thesis by simp
  qed
qed

lemma find_rev_None: "find P (rev xs) = None \<longleftrightarrow> (\<forall>y\<in>set xs. \<not> P y)"
  by (auto simp: find_None_iff)

lemma settled_Inl: "settled (Inl e) = Rejected e"
  by (simp add: settled_def)

lemma settled_Inr: "settled (Inr x) = Resolved x"
  by (simp add: settled_def)

lemma postComment_eq:
  assumes "parseCommentTarget w (co_commitSha opts) (co_pr opts)
             (case co_target opts of None \<Rightarrow> ''auto'' | Some x \<Rightarrow> x) = Inr target"
    and "co_update opts \<longrightarrow> drvComments w (tkind target @ ''Comments'') target = Inr comments"
  shows "postComment w opts watermark report =
     (if co_update opts then
        (case updatableComment watermark comments of
           Some cm \<Rightarrow>
             ([ParseCommentTarget, DrvComments (tkind target @ ''Comments'') target,
               DrvCommentUpdate (tkind target @ ''CommentUpdate'') report (comment_id cm) target],
              settled (drvCommentUpdate w (tkind target @ ''CommentUpdate'') report (comment_id cm) target))
         | None \<Rightarrow>
             ([ParseCommentTarget, DrvComments (tkind target @ ''Comments'') target,
               DrvCommentCreate (tkind target @ ''CommentCreate'') report target],
              settled (drvCommentCreate w (tkind target @ ''CommentCreate'') report target)))
      else ([ParseCommentTarget, DrvCommentCreate (tkind target @ ''CommentCreate'') report target],
            settled (drvCommentCreate w (tkind target @ ''CommentCreate'') report target)))"
  using assms
  by (auto simp: postComment_def io_simps io_call_def settled_Inr io_return_def split: option.splits)

lemma str_includes_length: "str_includes s t \<Longrightarrow> length t \<le> length s"
  by (auto simp: str_includes_iff)

lemma genWatermark_long: "35 < length (genWatermark p)"
  by (simp add: genWatermark_shape tokenHead_def tokenTail_def WATERMARK_IMAGE_def)

lemma sample_watermarkOf:
  "watermarkOf (sampleWorld\<lparr>drvComments := f\<rparr>)
     (sampleCommentOpts\<lparr>co_update := True, co_report := Some ''third report''\<rparr>) = sampleWatermark"
  by (simp add: watermarkOf_def sampleCommentOpts_def sampleWorld_def sampleWatermark_def)

text \<open>
  C8.  When \<^verbatim>\<open>commentCreate\<close> is not in watch mode and has built its report, it resolves
  the target.  With \<^verbatim>\<open>update\<close> it lists the comments of the target and looks for the last
  one in the driver's list whose body contains the watermark (the list is reversed and
  searched from its head): if there is one, the driver's update is called with its id,
  and if there is none, the driver's create.  Without \<^verbatim>\<open>update\<close> the comments are not
  listed and the driver's create is called.  The call is the last of the trace, and
  its answer is the outcome.
\<close>

theorem update_or_create:
  assumes "getDriver c = Inr drv" and "\<not> co_watch opts"
    and "\<not> (co_rmWatermark opts \<and> co_update opts)"
    and "composeReport c w opts (watermarkOf w opts) = (t, Resolved report)"
    and "parseCommentTarget w (co_commitSha opts) (co_pr opts)
           (case co_target opts of None \<Rightarrow> ''auto'' | Some x \<Rightarrow> x) = Inr target"
    and "co_update opts \<longrightarrow> drvComments w (tkind target @ ''Comments'') target = Inr comments"
  shows "commentCreate c w opts =
     (if co_update opts then
        (case updatableComment (watermarkOf w opts) comments of
           Some cm \<Rightarrow>
             (t @ [ParseCommentTarget, DrvComments (tkind target @ ''Comments'') target,
                   DrvCommentUpdate (tkind target @ ''CommentUpdate'') report (comment_id cm) target],
              settled (drvCommentUpdate w (tkind target @ ''CommentUpdate'') report (comment_id cm) target))
         | None \<Rightarrow>
             (t @ [ParseCommentTarget, DrvComments (tkind target @ ''Comments'') target,
                   DrvCommentCreate (tkind target @ ''CommentCreate'') report target],
              settled (drvCommentCreate w (tkind target @ ''CommentCreate'') report target)))
      else (t @ [ParseCommentTarget, DrvCommentCreate (tkind target @ ''CommentCreate'') report target],
            settled (drvCommentCreate w (tkind target @ ''CommentCreate'') report target)))
   \<and> (\<forall>cm. updatableComment (watermarkOf w opts) comments = Some cm \<longleftrightarrow>
          (\<exists>older newer. comments = older @ cm # newer \<and> str_includes (body cm) (watermarkOf w opts)
             \<and> (\<forall>x\<in>set newer. \<not> str_includes (body x) (watermarkOf w opts))))
   \<and> (updatableComment (watermarkOf w opts) comments = None \<longleftrightarrow>
          (\<forall>x\<in>set comments. \<not> str_includes (body x) (watermarkOf w opts)))"
proof (intro conjI allI)
  have "commentCreate c w opts
      = (t @ fst (postComment w opts (watermarkOf w opts) report),
         snd (postComment w opts (watermarkOf w opts) report))"
    using assms(1-4) by (auto simp: commentCreate_def io_simps)
  then show "commentCreate c w opts =
     (if co_update opts then
        (case updatableComment (watermarkOf w opts) comments of
           Some cm \<Rightarrow>
             (t @ [ParseCommentTarget, DrvComments (tkind target @ ''Comments'') target,
                   DrvCommentUpdate (tkind target @ ''CommentUpdate'') report (comment_id cm) target],
              settled (drvCommentUpdate w (tkind target @ ''CommentUpdate'') report (comment_id cm) target))
         | None \<Rightarrow>
             (t @ [ParseCommentTarget, DrvComments (tkind target @ ''Comments'') target,
                   DrvCommentCreate (tkind target @ ''CommentCreate'') report target],
              settled (drvCommentCreate w (tkind target @ ''CommentCreate'') report target)))
      else (t @ [ParseCommentTarget, DrvCommentCreate (tkind target @ ''CommentCreate'') report target],
            settled (drvCommentCreate w (tkind target @ ''CommentCreate'') report target)))"
    by (simp add: postComment_eq[OF assms(5,6)] split: option.splits)
next
  fix cm
  show "updatableComment (watermarkOf w opts) comments = Some cm \<longleftrightarrow>
          (\<exists>older newer. comments = older @ cm # newer \<and> str_includes (body cm) (watermarkOf w opts)
             \<and> (\<forall>x\<in>set newer. \<not> str_includes (body x) (watermarkOf w opts)))"
    unfolding updatableComment_def by (rule find_rev_Some)
next
  show "updatableComment (watermarkOf w opts) comments = None \<longleftrightarrow>
          (\<forall>x\<in>set comments. \<not> str_includes (body x) (watermarkOf w opts))"
    unfolding updatableComment_def by (rule find_rev_None)
qed
theorem update_or_create_witness:
  "commentCreate sampleCml
     (sampleWorld\<lparr>drvComments := (\<lambda>m t. Inr
        [\<lparr>comment_id = ''1'', body = ''first report'' @ sampleWatermark\<rparr>,
         \<lparr>comment_id = ''2'', body = ''second report'' @ sampleWatermark\<rparr>,
         \<lparr>comment_id = ''3'', body = ''looks good''\<rparr>])\<rparr>)
     (sampleCommentOpts\<lparr>co_update := True, co_report := Some ''third report''\<rparr>)
   = ([ParseCommentTarget,
       DrvComments ''commitComments'' \<lparr>tkind = ''commit'', tref = ''HEAD''\<rparr>,
       DrvCommentUpdate ''commitCommentUpdate''
         (''third report'' @ [CHR 0x0A, CHR 0x0A] @ sampleWatermark) ''2''
         \<lparr>tkind = ''commit'', tref = ''HEAD''\<rparr>],
      Resolved ''updated'')"
proof -
  let ?wm = "sampleWatermark"
  let ?c1 = "\<lparr>comment_id = ''1'', body = ''first report'' @ ?wm\<rparr>"
  let ?c2 = "\<lparr>comment_id = ''2'', body = ''second report'' @ ?wm\<rparr>"
  let ?c3 = "\<lparr>comment_id = ''3'', body = ''looks good''\<rparr>"
  let ?W = "sampleWorld\<lparr>drvComments := (\<lambda>m t. Inr [?c1, ?c2, ?c3])\<rparr>"
  let ?O = "sampleCommentOpts\<lparr>co_update := True, co_report := Some ''third report''\<rparr>"
  let ?T = "\<lparr>tkind = ''commit'', tref = ''HEAD''\<rparr>"
  have wm: "watermarkOf ?W ?O = ?wm"
    by (rule sample_watermarkOf)
  have h: "\<not> co_watch ?O" "\<not> (co_rmWatermark ?O \<and> co_update ?O)"
    by (simp_all add: sampleCommentOpts_def)
  have "composeReport sampleCml ?W ?O x = ([], Resolved (''third report'' @ [CHR 0x0A, CHR 0x0A] @ x))" for x
    by (simp add: composeReport_def userReport_def rawReport_def sampleCommentOpts_def truthy_def
        toStr_def io_simps io_catch_Resolved io_return_def)
  then have r: "composeReport sampleCml ?W ?O (watermarkOf ?W ?O)
      = ([], Resolved (''third report'' @ [CHR 0x0A, CHR 0x0A] @ ?wm))"
    by (simp only: wm)
  have t: "parseCommentTarget ?W (co_commitSha ?O) (co_pr ?O)
      (case co_target ?O of None \<Rightarrow> ''auto'' | Some x \<Rightarrow> x) = Inr ?T"
    by (simp add: sampleWorld_def)
  have cs: "co_update ?O \<longrightarrow> drvComments ?W (tkind ?T @ ''Comments'') ?T = Inr [?c1, ?c2, ?c3]"
    by simp
  have "35 < length ?wm" unfolding sampleWatermark_def by (rule genWatermark_long)
  then have no: "\<not> str_includes (body ?c3) ?wm"
    using str_includes_length[of "body ?c3" ?wm] by auto
  have yes: "str_includes (body ?c2) ?wm"
    unfolding str_includes_iff by (rule exI[of _ "''second report''"], rule exI[of _ "[]"]) simp
  have "[?c1, ?c2, ?c3] = [?c1] @ ?c2 # [?c3] \<and> str_includes (body ?c2) ?wm
      \<and> (\<forall>x\<in>set [?c3]. \<not> str_includes (body x) ?wm)"
    using yes no by simp
  then have ex: "\<exists>older newer. [?c1, ?c2, ?c3] = older @ ?c2 # newer \<and> str_includes (body ?c2) ?wm
      \<and> (\<forall>x\<in>set newer. \<not> str_includes (body x) ?wm)"
    by blast
  from update_or_create[OF getDriver_sample h r t cs] ex
  have u: "updatableComment (watermarkOf ?W ?O) [?c1, ?c2, ?c3] = Some ?c2"
    by (simp only: wm)
  have upd: "co_update ?O" by simp
  have du: "drvCommentUpdate sampleWorld m rep i tg = Inr ''updated''" for m rep i tg
    by (simp add: sampleWorld_def)
  from update_or_create[OF getDriver_sample h r t cs]
  have "commentCreate sampleCml ?W ?O =
     (if co_update ?O then
        (case updatableComment (watermarkOf ?W ?O) [?c1, ?c2, ?c3] of
           Some cm \<Rightarrow>
             ([] @ [ParseCommentTarget, DrvComments (tkind ?T @ ''Comments'') ?T,
                   DrvCommentUpdate (tkind ?T @ ''CommentUpdate'')
                     (''third report'' @ [CHR 0x0A, CHR 0x0A] @ ?wm) (comment_id cm) ?T],
              settled (drvCommentUpdate ?W (tkind ?T @ ''CommentUpdate'')
                     (''third report'' @ [CHR 0x0A, CHR 0x0A] @ ?wm) (comment_id cm) ?T))
         | None \<Rightarrow>
             ([] @ [ParseCommentTarget, DrvComments (tkind ?T @ ''Comments'') ?T,
                   DrvCommentCreate (tkind ?T @ ''CommentCreate'')
                     (''third report'' @ [CHR 0x0A, CHR 0x0A] @ ?wm) ?T],
              settled (drvCommentCreate ?W (tkind ?T @ ''CommentCreate'')
                     (''third report'' @ [CHR 0x0A, CHR 0x0A] @ ?wm) ?T)))
      else ([] @ [ParseCommentTarget, DrvCommentCreate (tkind ?T @ ''CommentCreate'')
                     (''third report'' @ [CHR 0x0A, CHR 0x0A] @ ?wm) ?T],
            settled (drvCommentCreate ?W (tkind ?T @ ''CommentCreate'')
                     (''third report'' @ [CHR 0x0A, CHR 0x0A] @ ?wm) ?T)))"
    by (rule conjunct1)
  then have "commentCreate sampleCml ?W ?O =
     ([] @ [ParseCommentTarget, DrvComments (tkind ?T @ ''Comments'') ?T,
            DrvCommentUpdate (tkind ?T @ ''CommentUpdate'')
              (''third report'' @ [CHR 0x0A, CHR 0x0A] @ ?wm) (comment_id ?c2) ?T],
      settled (drvCommentUpdate ?W (tkind ?T @ ''CommentUpdate'')
              (''third report'' @ [CHR 0x0A, CHR 0x0A] @ ?wm) (comment_id ?c2) ?T))"
    by (simp only: upd u if_True option.case)
  then show ?thesis
    by (simp add: du settled_Inr)
qed


section \<open>Opening a pull request twice\<close>

lemma execGit_then:
  "exec w command = Inr out \<Longrightarrow> io_bind (execGit w command) f = (Exec command # fst (f out), snd (f out))"
  by (simp add: execGit_def io_simps)

lemma prReconcile_reuse:
  assumes "exec w (remoteUrlCommand opts) = Inr remoteUrl"
    and "exec w [''git'', ''ls-remote'', remoteUrl, l_source l] = Inr refs"
    and "str_includes refs (l_source l)"
    and "drvPrs w = Inr prs" and "find (prMatches l) prs = Some p"
    and "pr_url p = Some url" and "url \<noteq> []"
  shows "prReconcile c w opts l =
     ([Exec (remoteUrlCommand opts), Exec [''git'', ''ls-remote'', remoteUrl, l_source l],
       DrvWarn (''Branch '' @ l_source l @ '' already exists''), DrvPrs],
      Resolved (Some (renderPr c opts url)))"
  using assms
  by (simp add: prReconcile_def execGit_then io_simps truthy_def toStr_def io_return_def)

lemma prReconcile_push:
  assumes "exec w (remoteUrlCommand opts) = Inr remoteUrl"
    and "exec w [''git'', ''ls-remote'', remoteUrl, l_source l] = Inr refs"
    and "\<not> str_includes refs (l_source l)"
    and ok: "\<And>command. \<exists>out. exec w command = Inr out"
    and "drvPrCreate w (prRequest c opts l) = Inr url"
  shows "\<exists>tr. prReconcile c w opts l =
     (Exec (remoteUrlCommand opts) # Exec [''git'', ''ls-remote'', remoteUrl, l_source l] # tr
        @ [Exec (pushCommand opts l), DrvPrCreate (prRequest c opts l)],
      Resolved (Some (renderPr c opts url)))"
proof -
  have g: "io_bind (execGit w command) (\<lambda>_. m) = (Exec command # fst m, snd m)" for command and m :: "'a io"
  proof -
    from ok obtain out where "exec w command = Inr out" by blast
    then show ?thesis by (simp add: execGit_then)
  qed
  have o: "openPr c w opts l = ([DrvPrCreate (prRequest c opts l)], Resolved (Some (renderPr c opts url)))"
    using assms(5) by (simp add: openPr_def io_simps io_return_def)
  show ?thesis
  proof (cases "l_paths l = []")
    case True
    with assms(1-3) have "prReconcile c w opts l =
     (Exec (remoteUrlCommand opts) # Exec [''git'', ''ls-remote'', remoteUrl, l_source l]
        # [Exec [''git'', ''fetch'', remoteOf opts, l_sha l], Exec [''git'', ''checkout'', ''-b'', l_source l]]
        @ [Exec (pushCommand opts l), DrvPrCreate (prRequest c opts l)],
      Resolved (Some (renderPr c opts url)))"
      by (simp add: prReconcile_def execGit_then g o io_simps)
    then show ?thesis by blast
  next
    case False
    with assms(1-3) have "prReconcile c w opts l =
     (Exec (remoteUrlCommand opts) # Exec [''git'', ''ls-remote'', remoteUrl, l_source l]
        # [Exec [''git'', ''fetch'', remoteOf opts, l_sha l],
           Exec [''git'', ''checkout'', ''-B'', l_target l, l_sha l],
           Exec [''git'', ''checkout'', ''-b'', l_source l],
           Exec ([''git'', ''add''] @ l_paths l),
           Exec [''git'', ''commit'', ''-m'', commitMessage opts l]]
        @ [Exec (pushCommand opts l), DrvPrCreate (prRequest c opts l)],
      Resolved (Some (renderPr c opts url)))"
      by (simp add: prReconcile_def execGit_then g o io_simps io_return_def)
    then show ?thesis by blast
  qed
qed

lemma prLocals_sample:
  assumes "drvUpdateGitConfig w = Inr []" and "gitStatus w = Inr [''plot.png'']"
    and "globby w [''plot.png''] = Inr [''plot.png'']"
    and "drvSha w = Some ''0123456789abcdef''" and "drvBranch w = Some ''main''"
  shows "prLocals sampleCml w samplePrOpts
     = ([DrvUpdateGitConfig, GitStatus, Globby [''plot.png'']], Resolved (Some sampleLocals))"
  using assms
  by (simp add: prLocals_def ci_def triggerSha_def branch_def getDriver_sample samplePrOpts_def
      sampleLocals_def truthy_def toStr_def io_simps io_return_def)

lemma prLocals_dev:
  assumes "drvUpdateGitConfig w = Inr []" and "gitStatus w = Inr [''plot.png'']"
    and "globby w [''plot.png''] = Inr [''plot.png'']"
    and "drvSha w = Some ''0123456789abcdef''" and "drvBranch w = Some ''dev-main''"
  shows "prLocals sampleCml w samplePrOpts
     = ([DrvUpdateGitConfig, GitStatus, Globby [''plot.png'']], Resolved (Some devLocals))"
  using assms
  by (simp add: prLocals_def ci_def triggerSha_def branch_def getDriver_sample samplePrOpts_def
      devLocals_def truthy_def toStr_def io_simps io_return_def)

text \<open>\<^verbatim>\<open>find\<close> gives the first entry that passes the test.\<close>

lemma find_first: "\<forall>q\<in>set xs. \<not> P q \<Longrightarrow> P p \<Longrightarrow> find P (xs @ p # ys) = Some p"
  by (induction xs) simp_all

text \<open>
  C4, as amended.  Two calls of \<^verbatim>\<open>prCreate\<close> with the same options that compute the same
  changed paths, commit and branch names.  At the first the remote has no branch of the
  source name, git succeeds and the driver opens a pull request with some address: the
  call pushes the branch, asks the driver, and resolves to the rendered address.  At the
  second the probe of the remote finds the branch.  Let \<open>p\<close> be an entry of the driver's
  list such that of no entry before it both the source and the target are suffixes of
  the computed names.  When \<open>p\<close> has such a source and target and a non-empty address,
  the second call resolves to that address, rendered, and after the computation of the
  names it only reads the remote's address, probes the remote, warns and lists the pull
  requests: it neither pushes nor asks the driver to open a pull request.  In particular,
  when \<open>p\<close> is the pull request that the first call opened, listed with the names it was
  asked for, the second call resolves to what the first resolved to.
\<close>

theorem prCreate_rerun:
  assumes "prLocals c w1 opts = (t1, Resolved (Some l))"
    and "prLocals c w2 opts = (t2, Resolved (Some l))"
    and "exec w1 (remoteUrlCommand opts) = Inr remote1"
    and "exec w1 [''git'', ''ls-remote'', remote1, l_source l] = Inr refs1"
    and "\<not> str_includes refs1 (l_source l)"
    and "\<And>command. \<exists>out. exec w1 command = Inr out"
    and "drvPrCreate w1 (prRequest c opts l) = Inr url" and "url \<noteq> []"
    and "exec w2 (remoteUrlCommand opts) = Inr remote2"
    and "exec w2 [''git'', ''ls-remote'', remote2, l_source l] = Inr refs2"
    and "str_includes refs2 (l_source l)"
    and "drvPrs w2 = Inr (before @ p # after)"
    and "\<forall>q\<in>set before. \<not> (endsWith (l_source l) (pr_source q) \<and> endsWith (l_target l) (pr_target q))"
  shows "(\<exists>tr. prCreate c w1 opts =
            (tr @ [Exec (pushCommand opts l), DrvPrCreate (prRequest c opts l)],
             Resolved (Some (renderPr c opts url))))
       \<and> (endsWith (l_source l) (pr_source p) \<and> endsWith (l_target l) (pr_target p)
            \<and> pr_url p = Some u \<and> u \<noteq> [] \<longrightarrow>
          prCreate c w2 opts =
            (t2 @ [Exec (remoteUrlCommand opts), Exec [''git'', ''ls-remote'', remote2, l_source l],
                   DrvWarn (''Branch '' @ l_source l @ '' already exists''), DrvPrs],
             Resolved (Some (renderPr c opts u))))
       \<and> (p = \<lparr>pr_url = Some url, pr_source = l_source l, pr_target = l_target l\<rparr> \<longrightarrow>
          prCreate c w2 opts =
            (t2 @ [Exec (remoteUrlCommand opts), Exec [''git'', ''ls-remote'', remote2, l_source l],
                   DrvWarn (''Branch '' @ l_source l @ '' already exists''), DrvPrs],
             Resolved (Some (renderPr c opts url))))"
proof (intro conjI impI)
  from prReconcile_push[OF assms(3,4,5,6,7)] obtain tr where
    "prReconcile c w1 opts l =
     (Exec (remoteUrlCommand opts) # Exec [''git'', ''ls-remote'', remote1, l_source l] # tr
        @ [Exec (pushCommand opts l), DrvPrCreate (prRequest c opts l)],
      Resolved (Some (renderPr c opts url)))" by blast
  with assms(1) have "prCreate c w1 opts =
     ((t1 @ Exec (remoteUrlCommand opts) # Exec [''git'', ''ls-remote'', remote1, l_source l] # tr)
        @ [Exec (pushCommand opts l), DrvPrCreate (prRequest c opts l)],
      Resolved (Some (renderPr c opts url)))"
    by (simp add: prCreate_def io_simps)
  then show "\<exists>tr. prCreate c w1 opts =
            (tr @ [Exec (pushCommand opts l), DrvPrCreate (prRequest c opts l)],
             Resolved (Some (renderPr c opts url)))" by blast
next
  have first: "find (prMatches l) (before @ p # after) = Some p" if "prMatches l p"
    using assms(13) that by (intro find_first) (simp_all add: prMatches_def)
  have reuse: "prCreate c w2 opts =
            (t2 @ [Exec (remoteUrlCommand opts), Exec [''git'', ''ls-remote'', remote2, l_source l],
                   DrvWarn (''Branch '' @ l_source l @ '' already exists''), DrvPrs],
             Resolved (Some (renderPr c opts a)))"
    if "prMatches l p" and "pr_url p = Some a" and "a \<noteq> []" for a
    using assms(2) prReconcile_reuse[OF assms(9,10,11,12) first[OF that(1)] that(2,3)]
    by (simp add: prCreate_def io_simps)
  {
    assume "endsWith (l_source l) (pr_source p) \<and> endsWith (l_target l) (pr_target p)
            \<and> pr_url p = Some u \<and> u \<noteq> []"
    then show "prCreate c w2 opts =
            (t2 @ [Exec (remoteUrlCommand opts), Exec [''git'', ''ls-remote'', remote2, l_source l],
                   DrvWarn (''Branch '' @ l_source l @ '' already exists''), DrvPrs],
             Resolved (Some (renderPr c opts u)))"
      by (intro reuse) (simp_all add: prMatches_def)
  }
  {
    assume "p = \<lparr>pr_url = Some url, pr_source = l_source l, pr_target = l_target l\<rparr>"
    with assms(8) show "prCreate c w2 opts =
            (t2 @ [Exec (remoteUrlCommand opts), Exec [''git'', ''ls-remote'', remote2, l_source l],
                   DrvWarn (''Branch '' @ l_source l @ '' already exists''), DrvPrs],
             Resolved (Some (renderPr c opts url)))"
      by (intro reuse) (simp_all add: prMatches_def endsWith_def)
  }
qed

theorem prCreate_rerun_witness:
  "snd (prCreate sampleCml worldBefore samplePrOpts) = Resolved (Some ''https://example.com/pull/1'')
   \<and> Exec [''git'', ''push'', ''--set-upstream'', ''origin'', ''main-cml-pr-01234567'']
        \<in> set (fst (prCreate sampleCml worldBefore samplePrOpts))
   \<and> prCreate sampleCml worldAfter samplePrOpts =
        ([DrvUpdateGitConfig, GitStatus, Globby [''plot.png''],
          Exec [''git'', ''config'', ''--get'', ''remote.origin.url''],
          Exec [''git'', ''ls-remote'', ''https://gitlab.com/acme/app.git'', ''main-cml-pr-01234567''],
          DrvWarn ''Branch main-cml-pr-01234567 already exists'', DrvPrs],
         Resolved (Some ''https://example.com/pull/1''))"
proof -
  let ?remote = "''https://gitlab.com/acme/app.git''"
  let ?other = "\<lparr>pr_url = Some ''https://example.com/pull/0'',
                   pr_source = ''fix-typo'', pr_target = ''main''\<rparr>"
  let ?pr = "\<lparr>pr_url = Some ''https://example.com/pull/1'',
                pr_source = l_source sampleLocals, pr_target = l_target sampleLocals\<rparr>"
  have l1: "prLocals sampleCml worldBefore samplePrOpts
      = ([DrvUpdateGitConfig, GitStatus, Globby [''plot.png'']], Resolved (Some sampleLocals))"
    by (rule prLocals_sample) (simp_all add: worldBefore_def sampleWorld_def)
  have l2: "prLocals sampleCml worldAfter samplePrOpts
      = ([DrvUpdateGitConfig, GitStatus, Globby [''plot.png'']], Resolved (Some sampleLocals))"
    by (rule prLocals_sample) (simp_all add: worldAfter_def worldBefore_def sampleWorld_def)
  have u1: "exec worldBefore (remoteUrlCommand samplePrOpts) = Inr ?remote"
    by (simp add: worldBefore_def remoteUrlCommand_def)
  have p1: "exec worldBefore [''git'', ''ls-remote'', ?remote, l_source sampleLocals] = Inr []"
    by (simp add: worldBefore_def)
  have ok: "\<exists>out. exec worldBefore command = Inr out" for command
    by (simp add: worldBefore_def)
  have n1: "\<not> str_includes [] (l_source sampleLocals)" by (simp add: sampleLocals_def)
  have c1: "drvPrCreate worldBefore (prRequest sampleCml samplePrOpts sampleLocals)
      = Inr ''https://example.com/pull/1''" "''https://example.com/pull/1'' \<noteq> []"
    by (simp_all add: worldBefore_def sampleWorld_def)
  have u2: "exec worldAfter (remoteUrlCommand samplePrOpts) = Inr ?remote"
    by (simp add: worldAfter_def remoteUrlCommand_def)
  have p2: "exec worldAfter [''git'', ''ls-remote'', ?remote, l_source sampleLocals]
      = Inr ''0123456789abcdef refs/heads/main-cml-pr-01234567''"
    by (simp add: worldAfter_def)
  have f2: "str_includes ''0123456789abcdef refs/heads/main-cml-pr-01234567'' (l_source sampleLocals)"
    by (simp add: sampleLocals_def)
  have prs: "drvPrs worldAfter = Inr ([?other] @ ?pr # [])"
    by (simp add: worldAfter_def sampleLocals_def)
  have m: "\<forall>q\<in>set [?other]. \<not> (endsWith (l_source sampleLocals) (pr_source q)
      \<and> endsWith (l_target sampleLocals) (pr_target q))"
    by (simp add: endsWith_def sampleLocals_def suffix_def)
  from prCreate_rerun[OF l1 l2 u1 p1 n1 ok c1 u2 p2 f2 prs m, of "[]"]
  obtain tr where
    a: "prCreate sampleCml worldBefore samplePrOpts =
            (tr @ [Exec (pushCommand samplePrOpts sampleLocals),
                   DrvPrCreate (prRequest sampleCml samplePrOpts sampleLocals)],
             Resolved (Some (renderPr sampleCml samplePrOpts ''https://example.com/pull/1'')))"
    and b: "prCreate sampleCml worldAfter samplePrOpts =
            ([DrvUpdateGitConfig, GitStatus, Globby [''plot.png'']]
               @ [Exec (remoteUrlCommand samplePrOpts),
                  Exec [''git'', ''ls-remote'', ?remote, l_source sampleLocals],
                  DrvWarn (''Branch '' @ l_source sampleLocals @ '' already exists''), DrvPrs],
             Resolved (Some (renderPr sampleCml samplePrOpts ''https://example.com/pull/1'')))"
    by blast
  have r: "renderPr sampleCml samplePrOpts x = x" for x
    by (simp add: renderPr_def samplePrOpts_def)
  have pc: "pushCommand samplePrOpts sampleLocals
      = [''git'', ''push'', ''--set-upstream'', ''origin'', ''main-cml-pr-01234567'']"
    by (simp add: pushCommand_def remoteOf_def samplePrOpts_def sampleLocals_def GIT_REMOTE_def)
  have rc: "remoteUrlCommand samplePrOpts = [''git'', ''config'', ''--get'', ''remote.origin.url'']"
    by (simp add: remoteUrlCommand_def remoteOf_def samplePrOpts_def GIT_REMOTE_def)
  have ls: "l_source sampleLocals = ''main-cml-pr-01234567''" by (simp add: sampleLocals_def)
  from a have "snd (prCreate sampleCml worldBefore samplePrOpts) = Resolved (Some ''https://example.com/pull/1'')"
    and "Exec [''git'', ''push'', ''--set-upstream'', ''origin'', ''main-cml-pr-01234567'']
        \<in> set (fst (prCreate sampleCml worldBefore samplePrOpts))"
    by (simp_all add: r pc)
  moreover from b have "prCreate sampleCml worldAfter samplePrOpts =
        ([DrvUpdateGitConfig, GitStatus, Globby [''plot.png''],
          Exec [''git'', ''config'', ''--get'', ''remote.origin.url''],
          Exec [''git'', ''ls-remote'', ?remote, ''main-cml-pr-01234567''],
          DrvWarn ''Branch main-cml-pr-01234567 already exists'', DrvPrs],
         Resolved (Some ''https://example.com/pull/1''))"
    by (simp add: r rc ls)
  ultimately show ?thesis by blast
qed

text \<open>
  C4 as stated fails: the second call can resolve to another address than the first.
  On the branch \<^verbatim>\<open>dev-main\<close> the first call pushes \<^verbatim>\<open>dev-main-cml-pr-01234567\<close> and the
  driver opens the pull request 8.  The pull request 7 of the branch \<^verbatim>\<open>main\<close>, from
  \<^verbatim>\<open>main-cml-pr-01234567\<close>, is listed before it, and both of its names are suffixes of
  the computed ones: the second call resolves to the address of the pull request 7.
\<close>

theorem prCreate_rerun_other_address:
  "snd (prCreate sampleCml devBefore samplePrOpts) = Resolved (Some ''https://example.com/pull/8'')
   \<and> Exec [''git'', ''push'', ''--set-upstream'', ''origin'', ''dev-main-cml-pr-01234567'']
        \<in> set (fst (prCreate sampleCml devBefore samplePrOpts))
   \<and> prCreate sampleCml devAfter samplePrOpts =
        ([DrvUpdateGitConfig, GitStatus, Globby [''plot.png''],
          Exec [''git'', ''config'', ''--get'', ''remote.origin.url''],
          Exec [''git'', ''ls-remote'', ''https://gitlab.com/acme/app.git'', ''dev-main-cml-pr-01234567''],
          DrvWarn ''Branch dev-main-cml-pr-01234567 already exists'', DrvPrs],
         Resolved (Some ''https://example.com/pull/7''))"
proof -
  let ?remote = "''https://gitlab.com/acme/app.git''"
  let ?old = "\<lparr>pr_url = Some ''https://example.com/pull/7'',
                 pr_source = ''main-cml-pr-01234567'', pr_target = ''main''\<rparr>"
  let ?new = "\<lparr>pr_url = Some ''https://example.com/pull/8'',
                 pr_source = ''dev-main-cml-pr-01234567'', pr_target = ''dev-main''\<rparr>"
  have l1: "prLocals sampleCml devBefore samplePrOpts
      = ([DrvUpdateGitConfig, GitStatus, Globby [''plot.png'']], Resolved (Some devLocals))"
    by (rule prLocals_dev) (simp_all add: devBefore_def worldBefore_def sampleWorld_def)
  have l2: "prLocals sampleCml devAfter samplePrOpts
      = ([DrvUpdateGitConfig, GitStatus, Globby [''plot.png'']], Resolved (Some devLocals))"
    by (rule prLocals_dev) (simp_all add: devAfter_def devBefore_def worldBefore_def sampleWorld_def)
  have r: "renderPr sampleCml samplePrOpts x = x" for x
    by (simp add: renderPr_def samplePrOpts_def)
  have pc: "pushCommand samplePrOpts devLocals
      = [''git'', ''push'', ''--set-upstream'', ''origin'', ''dev-main-cml-pr-01234567'']"
    by (simp add: pushCommand_def remoteOf_def samplePrOpts_def devLocals_def GIT_REMOTE_def)
  have rc: "remoteUrlCommand samplePrOpts = [''git'', ''config'', ''--get'', ''remote.origin.url'']"
    by (simp add: remoteUrlCommand_def remoteOf_def samplePrOpts_def GIT_REMOTE_def)
  have ls: "l_source devLocals = ''dev-main-cml-pr-01234567''" by (simp add: devLocals_def)
  have u1: "exec devBefore (remoteUrlCommand samplePrOpts) = Inr ?remote"
    by (simp add: devBefore_def worldBefore_def remoteUrlCommand_def)
  have p1: "exec devBefore [''git'', ''ls-remote'', ?remote, l_source devLocals] = Inr []"
    by (simp add: devBefore_def worldBefore_def)
  have ok: "\<exists>out. exec devBefore command = Inr out" for command
    by (simp add: devBefore_def worldBefore_def)
  have n1: "\<not> str_includes [] (l_source devLocals)" by (simp add: devLocals_def)
  have c1: "drvPrCreate devBefore (prRequest sampleCml samplePrOpts devLocals)
      = Inr ''https://example.com/pull/8''"
    by (simp add: devBefore_def)
  from prReconcile_push[OF u1 p1 n1 ok c1] obtain tr where
    "prReconcile sampleCml devBefore samplePrOpts devLocals =
     (Exec (remoteUrlCommand samplePrOpts) # Exec [''git'', ''ls-remote'', ?remote, l_source devLocals] # tr
        @ [Exec (pushCommand samplePrOpts devLocals), DrvPrCreate (prRequest sampleCml samplePrOpts devLocals)],
      Resolved (Some (renderPr sampleCml samplePrOpts ''https://example.com/pull/8'')))" by blast
  with l1 have a: "snd (prCreate sampleCml devBefore samplePrOpts) = Resolved (Some ''https://example.com/pull/8'')"
    and a': "Exec [''git'', ''push'', ''--set-upstream'', ''origin'', ''dev-main-cml-pr-01234567'']
        \<in> set (fst (prCreate sampleCml devBefore samplePrOpts))"
    by (simp_all add: prCreate_def io_simps r pc)
  have u2: "exec devAfter (remoteUrlCommand samplePrOpts) = Inr ?remote"
    by (simp add: devAfter_def remoteUrlCommand_def)
  have p2: "exec devAfter [''git'', ''ls-remote'', ?remote, l_source devLocals]
      = Inr ''0123456789abcdef refs/heads/dev-main-cml-pr-01234567''"
    by (simp add: devAfter_def)
  have f2: "str_includes ''0123456789abcdef refs/heads/dev-main-cml-pr-01234567'' (l_source devLocals)"
    by (simp add: devLocals_def)
  have prs: "drvPrs devAfter = Inr [?old, ?new]"
    by (simp add: devAfter_def)
  have m: "find (prMatches devLocals) [?old, ?new] = Some ?old"
    by (simp add: prMatches_def endsWith_def devLocals_def suffix_def)
  have u: "pr_url ?old = Some ''https://example.com/pull/7''" "''https://example.com/pull/7'' \<noteq> []"
    by simp_all
  from l2 prReconcile_reuse[OF u2 p2 f2 prs m u]
  have b: "prCreate sampleCml devAfter samplePrOpts =
        ([DrvUpdateGitConfig, GitStatus, Globby [''plot.png''],
          Exec [''git'', ''config'', ''--get'', ''remote.origin.url''],
          Exec [''git'', ''ls-remote'', ?remote, ''dev-main-cml-pr-01234567''],
          DrvWarn ''Branch dev-main-cml-pr-01234567 already exists'', DrvPrs],
         Resolved (Some ''https://example.com/pull/7''))"
    by (simp add: prCreate_def io_simps r rc ls)
  from a a' b show ?thesis by blast
qed

section \<open>Restoring the escaped ampersands\<close>

text \<open>An escaped ampersand that is the only one of its line is restored.\<close>

lemma single_ampersand_restored:
  "unescapeAmp (''![](https://asset.cml.dev/a?cml=png'' @ [CHR 0x5C] @ ''&cache-bypass=1)'')
     = ''![](https://asset.cml.dev/a?cml=png&cache-bypass=1)''"
  by code_simp

text \<open>
  C7 fails on the code.  On a line with two published images the serializer escapes
  the ampersand of each address.  The replacement that is to restore them matches once
  on the line, from the first escaped ampersand to the last equals sign, so the second
  address keeps its backslash.
\<close>

theorem second_ampersand_stays_escaped:
  "unescapeAmp (''![](https://asset.cml.dev/a?cml=png'' @ [CHR 0x5C] @ ''&cache-bypass=1) ''
                @ ''![](https://asset.cml.dev/b?cml=png'' @ [CHR 0x5C] @ ''&cache-bypass=2)'')
     = ''![](https://asset.cml.dev/a?cml=png&cache-bypass=1) ''
       @ ''![](https://asset.cml.dev/b?cml=png'' @ [CHR 0x5C] @ ''&cache-bypass=2)''"
  by code_simp

end
